theory Spec2Isabelle
  imports Complex_Main
begin

section \<open>JavaScript values\<close>

text \<open>
  The migration script (\<^verbatim>\<open>src/bin.ts\<close>) works on values produced by the YAML loader:
  primitives, arrays and plain objects. A number is a double; only the distinction between
  not-a-number and the other values matters to the script, so the finite doubles are read
  as the reals they denote (\<^verbatim>\<open>+0\<close> and \<^verbatim>\<open>-0\<close> denote the same real, as \<^verbatim>\<open>===\<close> has it).

  Arrays and objects have an identity. A value carries the address of the object it was
  loaded as (\<open>Addr\<close>); an object allocated by the script itself while it rebuilds a tree
  is \<open>Fresh\<close>: it is identical to no object of the tree it is compared with.
  The fields of an object are listed in property order, each key once.

  A string is a list of UTF-16 code units below 256.
\<close>

datatype number = NaN | PosInf | NegInf | Finite real

datatype ref = Addr nat | Fresh

datatype jsval =
    Undefined
  | Null
  | Bool bool
  | Num number
  | Str string
  | Arr ref "jsval list"
  | Obj ref "(string \<times> jsval) list"

fun same_ref :: "ref \<Rightarrow> ref \<Rightarrow> bool" where
  "same_ref (Addr a) (Addr b) = (a = b)"
| "same_ref _ _ = False"

text \<open>\<^verbatim>\<open>foo === bar\<close>\<close>

fun strict_eq :: "jsval \<Rightarrow> jsval \<Rightarrow> bool" where
  "strict_eq Undefined Undefined = True"
| "strict_eq Null Null = True"
| "strict_eq (Bool a) (Bool b) = (a = b)"
| "strict_eq (Num a) (Num b) = (a \<noteq> NaN \<and> a = b)"
| "strict_eq (Str a) (Str b) = (a = b)"
| "strict_eq (Arr r _) (Arr r' _) = same_ref r r'"
| "strict_eq (Obj r _) (Obj r' _) = same_ref r r'"
| "strict_eq _ _ = False"

text \<open>The truth value of a value in a condition (\<^verbatim>\<open>if (v)\<close>, \<^verbatim>\<open>a && b\<close>, \<^verbatim>\<open>a || b\<close>).\<close>

fun truthy :: "jsval \<Rightarrow> bool" where
  "truthy Undefined = False"
| "truthy Null = False"
| "truthy (Bool b) = b"
| "truthy (Num n) = (n \<noteq> NaN \<and> n \<noteq> Finite 0)"
| "truthy (Str s) = (s \<noteq> [])"
| "truthy (Arr _ _) = True"
| "truthy (Obj _ _) = True"

fun is_nan :: "jsval \<Rightarrow> bool" where
  "is_nan (Num n) = (n = NaN)"
| "is_nan _ = False"

text \<open>\<^verbatim>\<open>xs[i]\<close> on an array: \<^verbatim>\<open>undefined\<close> out of range.\<close>

definition js_nth :: "jsval list \<Rightarrow> nat \<Rightarrow> jsval" where
  "js_nth xs i = (if i < length xs then xs ! i else Undefined)"

section \<open>The structural equality checker\<close>

text \<open>
  \<^verbatim>\<open>foo.constructor\<close> of a truthy value: the built-in constructor of its kind, unless
  the value is an object with an own property named \<^verbatim>\<open>constructor\<close>, which shadows
  the inherited one. \<open>CtorNone\<close> stands for the values that have no properties
  (\<^verbatim>\<open>undefined\<close>, \<^verbatim>\<open>null\<close>); \<open>dequal\<close> never reads it, both being falsy.
\<close>

datatype ctor =
  CtorBoolean | CtorNumber | CtorString | CtorArray | CtorObject | CtorOwn jsval | CtorNone

fun constructor_of :: "jsval \<Rightarrow> ctor" where
  "constructor_of (Bool _) = CtorBoolean"
| "constructor_of (Num _) = CtorNumber"
| "constructor_of (Str _) = CtorString"
| "constructor_of (Arr _ _) = CtorArray"
| "constructor_of (Obj _ kvs) =
     (case map_of kvs ''constructor'' of None \<Rightarrow> CtorObject | Some v \<Rightarrow> CtorOwn v)"
| "constructor_of _ = CtorNone"

text \<open>\<^verbatim>\<open>foo.constructor === bar.constructor\<close>: a loaded value is never a built-in function.\<close>

fun ctor_eq :: "ctor \<Rightarrow> ctor \<Rightarrow> bool" where
  "ctor_eq (CtorOwn v) (CtorOwn w) = strict_eq v w"
| "ctor_eq (CtorOwn v) _ = False"
| "ctor_eq _ (CtorOwn w) = False"
| "ctor_eq c d = (c = d)"

text \<open>
  \<^verbatim>\<open>dequal(foo, bar)\<close> (lines 673 to 703). The constructor is never \<^verbatim>\<open>Date\<close> or
  \<^verbatim>\<open>RegExp\<close> on the values above, so these two tests fall through. The array loop
  \<^verbatim>\<open>while (len-- && dequal(foo[len], bar[len]))\<close> runs from the last index down and the
  function returns \<^verbatim>\<open>len === -1\<close>: \<open>dequal_arr\<close>. The \<^verbatim>\<open>for (ctor in foo)\<close> loop
  visits the own keys of \<open>foo\<close> in property order and counts them in \<^verbatim>\<open>len\<close>:
  \<open>dequal_obj\<close>; \<^verbatim>\<open>Object.keys(bar).length === len\<close> closes it. Only an object reaches
  this loop: a truthy primitive has a built-in, truthy constructor and is not of type
  \<^verbatim>\<open>object\<close>. Every other path ends in \<^verbatim>\<open>foo !== foo && bar !== bar\<close>.
\<close>

function dequal :: "jsval \<Rightarrow> jsval \<Rightarrow> bool"
  and dequal_arr :: "jsval list \<Rightarrow> jsval list \<Rightarrow> nat \<Rightarrow> bool"
  and dequal_obj :: "(string \<times> jsval) list \<Rightarrow> (string \<times> jsval) list \<Rightarrow> bool"
where
  "dequal foo bar =
     (if strict_eq foo bar then True
      else if truthy foo \<and> truthy bar \<and> ctor_eq (constructor_of foo) (constructor_of bar) then
        (case (foo, bar) of
           (Arr _ xs, Arr _ ys) \<Rightarrow> length xs = length ys \<and> dequal_arr xs ys (length xs)
         | (Obj _ f, Obj _ b) \<Rightarrow> dequal_obj f b \<and> length b = length f
         | _ \<Rightarrow> is_nan foo \<and> is_nan bar)
      else is_nan foo \<and> is_nan bar)"
| "dequal_arr xs ys 0 = True"
| "dequal_arr xs ys (Suc len) = (dequal (js_nth xs len) (js_nth ys len) \<and> dequal_arr xs ys len)"
| "dequal_obj [] b = True"
| "dequal_obj ((k, v) # rest) b =
     (case map_of b k of None \<Rightarrow> False | Some w \<Rightarrow> dequal v w \<and> dequal_obj rest b)"
  by pat_completeness auto
termination
  apply (relation "inv_image (less_than <*lex*> less_than)
     (\<lambda>x. case x of
        Inl (foo, bar) \<Rightarrow> (2 * size foo + 1, 0)
      | Inr (Inl (xs, ys, n)) \<Rightarrow> (2 * size_list size xs + 2, n)
      | Inr (Inr (f, b)) \<Rightarrow> (2 * size_list (size_prod (\<lambda>x. 0) size) f + 2, length f))")
        apply (auto simp: js_nth_def)
  subgoal for xs len
    using size_list_estimation'[of "xs ! len" xs "size (xs ! len)" size] by simp
  done

declare dequal.simps(1) [simp del]

subsection \<open>Structural equality as the specification words it\<close>

text \<open>
  Two sequences are equal iff they have the same length and all elements are pairwise
  equal in order; two mappings iff they have the same key set and every value is pairwise
  equal; two primitives iff they are \<^verbatim>\<open>===\<close>-equal or both not-a-number. Values of
  different kinds are not equal.
\<close>

function struct_eq :: "jsval \<Rightarrow> jsval \<Rightarrow> bool"
  and struct_eq_seq :: "jsval list \<Rightarrow> jsval list \<Rightarrow> bool"
  and struct_eq_fields :: "(string \<times> jsval) list \<Rightarrow> (string \<times> jsval) list \<Rightarrow> bool"
where
  "struct_eq (Arr _ xs) (Arr _ ys) = struct_eq_seq xs ys"
| "struct_eq (Obj _ f) (Obj _ g) = (set (map fst f) = set (map fst g) \<and> struct_eq_fields f g)"
| "struct_eq (Arr _ xs) (Obj _ g) = False"
| "struct_eq (Obj _ f) (Arr _ ys) = False"
| "struct_eq (Arr r xs) Undefined = False"
| "struct_eq (Arr r xs) Null = False"
| "struct_eq (Arr r xs) (Bool b) = False"
| "struct_eq (Arr r xs) (Num n) = False"
| "struct_eq (Arr r xs) (Str s) = False"
| "struct_eq (Obj r f) Undefined = False"
| "struct_eq (Obj r f) Null = False"
| "struct_eq (Obj r f) (Bool b) = False"
| "struct_eq (Obj r f) (Num n) = False"
| "struct_eq (Obj r f) (Str s) = False"
| "struct_eq Undefined b = (strict_eq Undefined b \<or> is_nan Undefined \<and> is_nan b)"
| "struct_eq Null b = (strict_eq Null b \<or> is_nan Null \<and> is_nan b)"
| "struct_eq (Bool x) b = (strict_eq (Bool x) b \<or> is_nan (Bool x) \<and> is_nan b)"
| "struct_eq (Num x) b = (strict_eq (Num x) b \<or> is_nan (Num x) \<and> is_nan b)"
| "struct_eq (Str x) b = (strict_eq (Str x) b \<or> is_nan (Str x) \<and> is_nan b)"
| "struct_eq_seq [] [] = True"
| "struct_eq_seq (x # xs) (y # ys) = (struct_eq x y \<and> struct_eq_seq xs ys)"
| "struct_eq_seq [] (y # ys) = False"
| "struct_eq_seq (x # xs) [] = False"
| "struct_eq_fields [] g = True"
| "struct_eq_fields ((k, v) # rest) g =
     ((case map_of g k of None \<Rightarrow> False | Some w \<Rightarrow> struct_eq v w) \<and> struct_eq_fields rest g)"
  by pat_completeness auto
termination
  by (relation "measure (\<lambda>x. case x of
        Inl (a, b) \<Rightarrow> size a
      | Inr (Inl (xs, ys)) \<Rightarrow> size_list size xs
      | Inr (Inr (f, g)) \<Rightarrow> size_list (size_prod (\<lambda>x. 0) size) f)") auto

text \<open>Every array and object inside a value, the value itself included.\<close>

fun subvalues :: "jsval \<Rightarrow> jsval list" where
  "subvalues (Arr r xs) = Arr r xs # concat (map subvalues xs)"
| "subvalues (Obj r f) = Obj r f # concat (map (\<lambda>p. subvalues (snd p)) f)"
| "subvalues v = [v]"

text \<open>An object lists each of its keys once.\<close>

fun distinct_keys :: "jsval \<Rightarrow> bool" where
  "distinct_keys (Arr _ xs) = list_all distinct_keys xs"
| "distinct_keys (Obj _ f) = (distinct (map fst f) \<and> list_all (\<lambda>p. distinct_keys (snd p)) f)"
| "distinct_keys _ = True"

text \<open>
  Two values describe one heap: where \<^verbatim>\<open>===\<close> holds between a part of the one and a part
  of the other, the two parts are the same value.
\<close>

definition alias_free :: "jsval \<Rightarrow> jsval \<Rightarrow> bool" where
  "alias_free foo bar =
     list_all (\<lambda>a. list_all (\<lambda>b. strict_eq a b \<longrightarrow> a = b) (subvalues bar)) (subvalues foo)"

text \<open>A primitive other than not-a-number: \<^verbatim>\<open>===\<close> compares it by value.\<close>

fun strict_prim :: "jsval \<Rightarrow> bool" where
  "strict_prim (Arr _ _) = False"
| "strict_prim (Obj _ _) = False"
| "strict_prim (Num n) = (n \<noteq> NaN)"
| "strict_prim _ = True"

text \<open>
  No mapping inside the value has an own key \<^verbatim>\<open>constructor\<close> bound to a sequence,
  a mapping or not-a-number.
\<close>

fun ctor_plain :: "jsval \<Rightarrow> bool" where
  "ctor_plain (Arr _ xs) = list_all ctor_plain xs"
| "ctor_plain (Obj _ f) =
     ((case map_of f ''constructor'' of None \<Rightarrow> True | Some c \<Rightarrow> strict_prim c)
      \<and> list_all (\<lambda>p. ctor_plain (snd p)) f)"
| "ctor_plain _ = True"

section \<open>Strings\<close>

definition is_word :: "char \<Rightarrow> bool" where
  "is_word c = (let n = (of_char c :: nat) in
     (48 \<le> n \<and> n \<le> 57) \<or> (65 \<le> n \<and> n \<le> 90) \<or> n = 95 \<or> (97 \<le> n \<and> n \<le> 122))"

definition is_space :: "char \<Rightarrow> bool" where
  "is_space c = (let n = (of_char c :: nat) in (9 \<le> n \<and> n \<le> 13) \<or> n = 32 \<or> n = 160)"

definition is_line_terminator :: "char \<Rightarrow> bool" where
  "is_line_terminator c = (c = CHR 0x0A \<or> c = CHR 0x0D)"

fun starts_with :: "string \<Rightarrow> string \<Rightarrow> bool" where
  "starts_with s [] = True"
| "starts_with [] (p # ps) = False"
| "starts_with (c # cs) (p # ps) = (c = p \<and> starts_with cs ps)"

definition ends_with :: "string \<Rightarrow> string \<Rightarrow> bool" where
  "ends_with s p = starts_with (rev s) (rev p)"

fun index_of :: "string \<Rightarrow> string \<Rightarrow> nat option" where
  "index_of p [] = (if p = [] then Some 0 else None)"
| "index_of p (c # cs) =
     (if starts_with (c # cs) p then Some 0 else map_option Suc (index_of p cs))"

definition str_includes :: "string \<Rightarrow> string \<Rightarrow> bool" where
  "str_includes s p = (index_of p s \<noteq> None)"

definition replace_first :: "string \<Rightarrow> string \<Rightarrow> string \<Rightarrow> string" where
  "replace_first s p r =
     (case index_of p s of None \<Rightarrow> s | Some i \<Rightarrow> take i s @ r @ drop (i + length p) s)"

text \<open>
  \<^verbatim>\<open>s.split(c)\<close> for a separator of one unit; \<open>acc\<close> is the piece being read, reversed.
\<close>

fun split_acc :: "char \<Rightarrow> string \<Rightarrow> string \<Rightarrow> string list" where
  "split_acc c acc [] = [rev acc]"
| "split_acc c acc (x # xs) =
     (if x = c then rev acc # split_acc c [] xs else split_acc c (x # acc) xs)"

definition split_on :: "char \<Rightarrow> string \<Rightarrow> string list" where
  "split_on c s = split_acc c [] s"

fun join :: "string \<Rightarrow> string list \<Rightarrow> string" where
  "join sep [] = []"
| "join sep [x] = x"
| "join sep (x # y # ys) = x @ sep @ join sep (y # ys)"

definition to_lower_char :: "char \<Rightarrow> char" where
  "to_lower_char c = (let n = (of_char c :: nat) in
     if (65 \<le> n \<and> n \<le> 90) \<or> (192 \<le> n \<and> n \<le> 222 \<and> n \<noteq> 215) then char_of (n + 32) else c)"

definition to_lower :: "string \<Rightarrow> string" where
  "to_lower s = map to_lower_char s"

definition trim :: "string \<Rightarrow> string" where
  "trim s = rev (dropWhile is_space (rev (dropWhile is_space s)))"

section \<open>Pattern matching\<close>

text \<open>
  A matcher is given the text from some position on and answers whether the pattern
  matches at that position: the captured groups and the length of the match.
  \<open>replace_all\<close> is \<^verbatim>\<open>String.prototype.replace\<close> with a global pattern: the leftmost
  match is replaced, the search goes on behind it. None of the script's patterns
  matches the empty string; were one to, the search would step one unit on.
\<close>

function replace_all :: "(string \<Rightarrow> ('m \<times> nat) option) \<Rightarrow> ('m \<Rightarrow> string) \<Rightarrow> string \<Rightarrow> string" where
  "replace_all m f s =
     (if s = [] then []
      else (case m s of
              None \<Rightarrow> hd s # replace_all m f (tl s)
            | Some (g, n) \<Rightarrow>
                if n = 0 then f g @ hd s # replace_all m f (tl s)
                else f g @ replace_all m f (drop n s)))"
  by pat_completeness auto
termination
  by (relation "measure (\<lambda>(m, f, s). length s)") auto

declare replace_all.simps [simp del]

text \<open>\<^verbatim>\<open>/:::(\w+)(?: +(.+?)\n|\s*\n)([\s\S]+?)(:::|$)/\<close>\<close>

text \<open>
  \<^verbatim>\<open>([\s\S]+?)(:::|$)\<close>: at least one unit, then as few as possible up to the first
  \<^verbatim>\<open>:::\<close> or, failing that, the end of the text. The result is the captured text and
  the length matched, the closing marker included.
\<close>

definition admonition_text :: "string \<Rightarrow> (string \<times> nat) option" where
  "admonition_text s =
     (case s of
        [] \<Rightarrow> None
      | c # cs \<Rightarrow>
          (case index_of '':::'' cs of
             None \<Rightarrow> Some (s, length s)
           | Some i \<Rightarrow> Some (take (Suc i) s, Suc i + 3)))"

text \<open>
  \<^verbatim>\<open> +(.+?)\n\<close> with \<open>k\<close> spaces taken, \<open>k\<close> counting down as the greedy \<^verbatim>\<open> +\<close> gives
  spaces back: the title is the rest of the line, which must not be empty and must end
  in a line feed.
\<close>

fun admonition_title :: "string \<Rightarrow> nat \<Rightarrow> (string \<times> string \<times> nat) option" where
  "admonition_title r 0 = None"
| "admonition_title r (Suc k) =
     (let r2 = drop (Suc k) r;
          title = takeWhile (\<lambda>c. \<not> is_line_terminator c) r2;
          r3 = dropWhile (\<lambda>c. \<not> is_line_terminator c) r2
      in if title \<noteq> [] \<and> starts_with r3 ''\<newline>'' then
           (case admonition_text (tl r3) of
              Some (text, n) \<Rightarrow> Some (title, text, Suc k + length title + 1 + n)
            | None \<Rightarrow> admonition_title r k)
         else admonition_title r k)"

text \<open>
  \<^verbatim>\<open>\s*\n\<close> with \<open>j\<close> units of white space taken before the line feed, \<open>j\<close> counting
  down from the length of the run.
\<close>

fun admonition_blank :: "string \<Rightarrow> nat \<Rightarrow> (string \<times> nat) option" where
  "admonition_blank r j =
     (let here = (if starts_with (drop j r) ''\<newline>'' then
                    (case admonition_text (drop (Suc j) r) of
                       Some (text, n) \<Rightarrow> Some (text, Suc j + n)
                     | None \<Rightarrow> None)
                  else None)
      in case here of
           Some res \<Rightarrow> Some res
         | None \<Rightarrow> (case j of 0 \<Rightarrow> None | Suc j' \<Rightarrow> admonition_blank r j'))"

text \<open>The groups: the type, the title (absent in the second alternative), the text.\<close>

definition admonition_match :: "string \<Rightarrow> ((string \<times> string option \<times> string) \<times> nat) option" where
  "admonition_match s =
     (if starts_with s '':::'' then
        (let r = drop 3 s;
             type = takeWhile is_word r;
             r1 = dropWhile is_word r
         in if type = [] then None
            else (case admonition_title r1 (length (takeWhile (\<lambda>c. c = CHR '' '') r1)) of
                    Some (title, text, n) \<Rightarrow> Some ((type, Some title, text), 3 + length type + n)
                  | None \<Rightarrow>
                      (case admonition_blank r1 (length (takeWhile is_space r1)) of
                         Some (text, n) \<Rightarrow> Some ((type, None, text), 3 + length type + n)
                       | None \<Rightarrow> None)))
      else None)"

text \<open>The callback of lines 98 to 103; an absent title is printed as \<^verbatim>\<open>undefined\<close>.\<close>

definition admonition_replacement :: "string \<times> string option \<times> string \<Rightarrow> string" where
  "admonition_replacement g =
     (case g of (type0, title, text0) \<Rightarrow>
        let type1 = trim type0;
            type = (if type1 = ''attention'' then ''info'' else type1);
            text = (if ends_with text0 ''\<newline>'' then text0 else text0 @ ''\<newline>'')
        in ''{% admonition type=\"'' @ type @ ''\" name=\"''
           @ (case title of Some t \<Rightarrow> t | None \<Rightarrow> ''undefined'')
           @ ''\" %}\<newline>'' @ text @ ''{% /admonition %}'')"

text \<open>\<^verbatim>\<open>/<embed\s+src="(.*?)"\s+\/>/\<close>\<close>

text \<open>\<^verbatim>\<open>"\s+\/>\<close> at the head of the text: the length matched.\<close>

definition embed_close :: "string \<Rightarrow> nat option" where
  "embed_close s =
     (if starts_with s ''\"'' then
        (let ws = takeWhile is_space (tl s)
         in if ws \<noteq> [] \<and> starts_with (dropWhile is_space (tl s)) ''/>''
            then Some (1 + length ws + 2) else None)
      else None)"

text \<open>
  \<^verbatim>\<open>(.*?)\<close> followed by the closing part: the shortest run of units of one line after
  which the closing part matches. \<open>acc\<close> is the run taken so far, reversed.
\<close>

fun embed_src :: "string \<Rightarrow> string \<Rightarrow> (string \<times> nat) option" where
  "embed_src acc [] = None"
| "embed_src acc (c # cs) =
     (case embed_close (c # cs) of
        Some n \<Rightarrow> Some (rev acc, length acc + n)
      | None \<Rightarrow> if is_line_terminator c then None else embed_src (c # acc) cs)"

definition embed_match :: "string \<Rightarrow> (string \<times> nat) option" where
  "embed_match s =
     (if starts_with s ''<embed'' then
        (let r = drop 6 s;
             ws = takeWhile is_space r;
             r1 = dropWhile is_space r
         in if ws \<noteq> [] \<and> starts_with r1 ''src=\"'' then
              (case embed_src [] (drop 5 r1) of
                 Some (src, n) \<Rightarrow> Some (src, 6 + length ws + 5 + n)
               | None \<Rightarrow> None)
            else None)
      else None)"

definition embed_replacement :: "string \<Rightarrow> string" where
  "embed_replacement src = ''{% partial file=\"'' @ src @ ''\" /%}''"

text \<open>\<^verbatim>\<open>/```(\w+)?\s+(.+)\n([\s\S]+?)```/\<close>\<close>

text \<open>\<^verbatim>\<open>([\s\S]+?)```\<close>: at least one unit, then up to the first closing fence.\<close>

definition fence_body :: "string \<Rightarrow> (string \<times> nat) option" where
  "fence_body s =
     (case s of
        [] \<Rightarrow> None
      | c # cs \<Rightarrow>
          (case index_of ''```'' cs of
             None \<Rightarrow> None
           | Some i \<Rightarrow> Some (take (Suc i) s, Suc i + 3)))"

text \<open>
  \<^verbatim>\<open>\s+(.+)\n\<close> and the body, with \<open>k\<close> units of white space taken, \<open>k\<close> counting down
  from the length of the run as the greedy \<^verbatim>\<open>\s+\<close> gives units back. The greedy
  \<^verbatim>\<open>(.+)\<close> can only end where the line ends, and the line must end in a line feed.
\<close>

fun fence_title :: "string \<Rightarrow> nat \<Rightarrow> (string \<times> string \<times> nat) option" where
  "fence_title r 0 = None"
| "fence_title r (Suc k) =
     (let r2 = drop (Suc k) r;
          title = takeWhile (\<lambda>c. \<not> is_line_terminator c) r2;
          r3 = dropWhile (\<lambda>c. \<not> is_line_terminator c) r2
      in if title \<noteq> [] \<and> starts_with r3 ''\<newline>'' then
           (case fence_body (tl r3) of
              Some (body, n) \<Rightarrow> Some (title, body, Suc k + length title + 1 + n)
            | None \<Rightarrow> fence_title r k)
         else fence_title r k)"

text \<open>The groups: the language tag (empty when absent), the title, the body.\<close>

definition fence_match :: "string \<Rightarrow> ((string \<times> string \<times> string) \<times> nat) option" where
  "fence_match s =
     (if starts_with s ''```'' then
        (let r = drop 3 s;
             lang = takeWhile is_word r;
             r1 = dropWhile is_word r
         in case fence_title r1 (length (takeWhile is_space r1)) of
              Some (title, body, n) \<Rightarrow> Some ((lang, title, body), 3 + length lang + n)
            | None \<Rightarrow> None)
      else None)"

text \<open>The replacement pattern \<^verbatim>\<open>'```$1 {% title="$2" %}\n$3```'\<close>.\<close>

definition fence_replacement :: "string \<times> string \<times> string \<Rightarrow> string" where
  "fence_replacement g =
     (case g of (lang, title, body) \<Rightarrow>
        ''```'' @ lang @ '' {% title=\"'' @ title @ ''\" %}\<newline>'' @ body @ ''```'')"

text \<open>\<^verbatim>\<open>/(\[[^\]]+\]\()([^)]+)(\))/\<close>: the groups are \<open>start\<close>, \<open>link\<close> and \<open>end\<close>.\<close>

definition link_match :: "string \<Rightarrow> ((string \<times> string \<times> string) \<times> nat) option" where
  "link_match s =
     (if starts_with s ''['' then
        (let label = takeWhile (\<lambda>c. c \<noteq> CHR '']'') (tl s);
             r1 = dropWhile (\<lambda>c. c \<noteq> CHR '']'') (tl s)
         in if label \<noteq> [] \<and> starts_with r1 ''](''  then
              (let link = takeWhile (\<lambda>c. c \<noteq> CHR '')'') (drop 2 r1);
                   r2 = dropWhile (\<lambda>c. c \<noteq> CHR '')'') (drop 2 r1)
               in if link \<noteq> [] \<and> starts_with r2 '')'' then
                    Some ((''['' @ label @ '']('', link, '')''), 1 + length label + 2 + length link + 1)
                  else None)
            else None)
      else None)"

text \<open>\<^verbatim>\<open>/^---\r?\n([\s\S]+?)\r?\n---(?:\r?\n)+/\<close>\<close>

text \<open>\<^verbatim>\<open>(?:\r?\n)+\<close>, greedy: the length of the longest run of line ends.\<close>

fun line_ends :: "string \<Rightarrow> nat" where
  "line_ends (c # d # cs) =
     (if c = CHR 0x0A then 1 + line_ends (d # cs)
      else if c = CHR 0x0D \<and> d = CHR 0x0A then 2 + line_ends cs
      else 0)"
| "line_ends [c] = (if c = CHR 0x0A then 1 else 0)"
| "line_ends [] = 0"

text \<open>\<^verbatim>\<open>\r?\n---(?:\r?\n)+\<close> at the head of the text: the length matched.\<close>

definition frontmatter_close :: "string \<Rightarrow> nat option" where
  "frontmatter_close s =
     (let k = (if starts_with s ''\<newline>---'' then Some 4
               else if starts_with s (CHR 0x0D # ''\<newline>---'') then Some 5 else None)
      in case k of
           None \<Rightarrow> None
         | Some k \<Rightarrow> (if line_ends (drop k s) = 0 then None else Some (k + line_ends (drop k s))))"

text \<open>
  \<^verbatim>\<open>([\s\S]+?)\<close> followed by the closing part: \<open>acc\<close> is the block taken so far,
  reversed and not empty.
\<close>

fun frontmatter_block :: "string \<Rightarrow> string \<Rightarrow> (string \<times> nat) option" where
  "frontmatter_block acc [] = None"
| "frontmatter_block acc (c # cs) =
     (case frontmatter_close (c # cs) of
        Some n \<Rightarrow> Some (rev acc, length acc + n)
      | None \<Rightarrow> frontmatter_block (c # acc) cs)"

text \<open>The block (group 1) and the length of the whole match.\<close>

definition frontmatter_match :: "string \<Rightarrow> (string \<times> nat) option" where
  "frontmatter_match s =
     (if starts_with s ''---'' then
        (let r = drop 3 s;
             k = (if starts_with r ''\<newline>'' then Some 1
                  else if starts_with r (CHR 0x0D # ''\<newline>'') then Some 2 else None)
         in case k of
              None \<Rightarrow> None
            | Some k \<Rightarrow>
                (case drop k r of
                   [] \<Rightarrow> None
                 | c # cs \<Rightarrow>
                     (case frontmatter_block [c] cs of
                        Some (block, n) \<Rightarrow> Some (block, 3 + k + n)
                      | None \<Rightarrow> None)))
      else None)"

section \<open>Paths\<close>

text \<open>
  The functions of Node's \<^verbatim>\<open>path\<close> module in its POSIX form, by their documented
  behaviour. A path is read as its segments between slashes. \<open>cwd\<close> is the working
  directory of the process, given by its segments (\<^verbatim>\<open>/home/me/site\<close> is
  \<open>[''home'', ''me'', ''site'']\<close>).
\<close>

text \<open>
  One step of normalisation, on the segments kept so far (last one first): empty segments
  and \<^verbatim>\<open>.\<close> are dropped, \<^verbatim>\<open>..\<close> removes the segment before it; at the start of
  a relative path it stays, at the root it is dropped.
\<close>

definition normalize_step :: "bool \<Rightarrow> string list \<Rightarrow> string \<Rightarrow> string list" where
  "normalize_step allowAboveRoot stack seg =
     (if seg = [] \<or> seg = ''.'' then stack
      else if seg = ''..'' then
        (case stack of
           [] \<Rightarrow> if allowAboveRoot then [''..''] else []
         | t # ts \<Rightarrow> if t = ''..'' then (if allowAboveRoot then ''..'' # stack else stack) else ts)
      else seg # stack)"

definition normalize_segments :: "bool \<Rightarrow> string list \<Rightarrow> string list" where
  "normalize_segments allowAboveRoot segs = rev (foldl (normalize_step allowAboveRoot) [] segs)"

text \<open>
  \<^verbatim>\<open>path.resolve(...args)\<close>: the arguments are taken from the right until one is
  absolute; empty ones are skipped; the working directory is put in front when none is.
  \<open>resolve_collect\<close> runs over the arguments from the last to the first.
\<close>

fun resolve_collect :: "string list \<Rightarrow> string \<Rightarrow> string \<times> bool" where
  "resolve_collect [] acc = (acc, False)"
| "resolve_collect (p # ps) acc =
     (if p = [] then resolve_collect ps acc
      else if hd p = CHR ''/'' then (p @ ''/'' @ acc, True)
      else resolve_collect ps (p @ ''/'' @ acc))"

definition resolve_segments :: "string list \<Rightarrow> string list \<Rightarrow> string list" where
  "resolve_segments cwd args =
     (case resolve_collect (rev args) [] of
        (p, absolute) \<Rightarrow>
          normalize_segments False ((if absolute then [] else cwd) @ split_on (CHR ''/'') p))"

definition path_resolve :: "string list \<Rightarrow> string list \<Rightarrow> string" where
  "path_resolve cwd args = ''/'' @ join ''/'' (resolve_segments cwd args)"

fun drop_common :: "string list \<Rightarrow> string list \<Rightarrow> string list \<times> string list" where
  "drop_common (x # xs) (y # ys) = (if x = y then drop_common xs ys else (x # xs, y # ys))"
| "drop_common xs ys = (xs, ys)"

text \<open>
  \<^verbatim>\<open>path.relative(from, to)\<close>: both are resolved; one \<^verbatim>\<open>..\<close> for every segment of
  \<open>from\<close> behind the common directory, then the segments of \<open>to\<close> behind it.
\<close>

definition path_relative :: "string list \<Rightarrow> string \<Rightarrow> string \<Rightarrow> string" where
  "path_relative cwd from to =
     (if from = to then []
      else (case drop_common (resolve_segments cwd [from]) (resolve_segments cwd [to]) of
              (f, t) \<Rightarrow> join ''/'' (map (\<lambda>_. ''..'') f @ t)))"

text \<open>
  \<^verbatim>\<open>path.dirname(path)\<close>: trailing slashes are ignored, the result ends before the last
  slash that is left; a slash at index 0 is the root.
\<close>

definition path_dirname :: "string \<Rightarrow> string" where
  "path_dirname p =
     (case p of
        [] \<Rightarrow> ''.''
      | c # cs \<Rightarrow>
          (let r = dropWhile (\<lambda>x. x \<noteq> CHR ''/'') (dropWhile (\<lambda>x. x = CHR ''/'') (rev cs))
           in if r = [] then (if c = CHR ''/'' then ''/'' else ''.'')
              else if c = CHR ''/'' \<and> tl r = [] then ''//''
              else c # rev (tl r)))"

text \<open>\<^verbatim>\<open>path.normalize(path)\<close>\<close>

definition path_normalize :: "string \<Rightarrow> string" where
  "path_normalize p =
     (if p = [] then ''.''
      else
        (let absolute = (hd p = CHR ''/'');
             trailing = (last p = CHR ''/'');
             s = join ''/'' (normalize_segments (\<not> absolute) (split_on (CHR ''/'') p))
         in if s = [] then (if absolute then ''/'' else if trailing then ''./'' else ''.'')
            else (if absolute then ''/'' else []) @ s @ (if trailing then ''/'' else [])))"

text \<open>\<^verbatim>\<open>path.join(...args)\<close>\<close>

definition path_join :: "string list \<Rightarrow> string" where
  "path_join args =
     (let parts = filter (\<lambda>a. a \<noteq> []) args
      in if parts = [] then ''.'' else path_normalize (join ''/'' parts))"

text \<open>
  \<^verbatim>\<open>path.basename(path, suffix)\<close>: the last segment, trailing slashes ignored, without the
  suffix when it ends in it and is longer; a path equal to the suffix has the base name
  \<^verbatim>\<open>''\<close>.
\<close>

definition path_basename :: "string \<Rightarrow> string \<Rightarrow> string" where
  "path_basename p suffix =
     (let base = rev (takeWhile (\<lambda>x. x \<noteq> CHR ''/'') (dropWhile (\<lambda>x. x = CHR ''/'') (rev p)))
      in if suffix \<noteq> [] \<and> length suffix \<le> length p then
           (if suffix = p then []
            else if ends_with base suffix \<and> length suffix < length base
              then take (length base - length suffix) base
            else base)
         else base)"

section \<open>Records of the run\<close>

datatype error =
    TypeError
  | NoRenamedFile string
  | YAMLException
  | ENOENT string

text \<open>
  \<^verbatim>\<open>obj[key] = value\<close> on a plain record, the fields in property order: an existing key
  keeps its place; a new key that is an array index goes among the array indices, in
  ascending order and before every other key; any other new key goes last.
\<close>

definition array_index :: "string \<Rightarrow> nat option" where
  "array_index k =
     (if k \<noteq> [] \<and> list_all (\<lambda>c. 48 \<le> (of_char c :: nat) \<and> (of_char c :: nat) \<le> 57) k
         \<and> (hd k \<noteq> CHR ''0'' \<or> length k = 1)
      then (let n = foldl (\<lambda>a c. 10 * a + ((of_char c :: nat) - 48)) (0 :: nat) k
            in if n < 4294967295 then Some n else None)
      else None)"

definition comes_before :: "string \<Rightarrow> string \<Rightarrow> bool" where
  "comes_before k k' =
     (case array_index k of
        None \<Rightarrow> False
      | Some i \<Rightarrow> (case array_index k' of None \<Rightarrow> True | Some j \<Rightarrow> i < j))"

fun prop_set :: "string \<Rightarrow> 'v \<Rightarrow> (string \<times> 'v) list \<Rightarrow> (string \<times> 'v) list" where
  "prop_set k v [] = [(k, v)]"
| "prop_set k v ((k', v') # ps) =
     (if k' = k then (k, v) # ps
      else if comes_before k k' then (k, v) # (k', v') # ps
      else (k', v') # prop_set k v ps)"

text \<open>
  An assignment to the key \<^verbatim>\<open>__proto__\<close> goes to the inherited setter and adds no
  own property.
\<close>

definition prop_assign :: "string \<Rightarrow> 'v \<Rightarrow> (string \<times> 'v) list \<Rightarrow> (string \<times> 'v) list" where
  "prop_assign k v ps = (if k = ''__proto__'' then ps else prop_set k v ps)"

definition prop_delete :: "string \<Rightarrow> (string \<times> 'v) list \<Rightarrow> (string \<times> 'v) list" where
  "prop_delete k ps = filter (\<lambda>p. fst p \<noteq> k) ps"

text \<open>
  \<^verbatim>\<open>v.name\<close> for the names the script reads (\<^verbatim>\<open>permission\<close>, \<^verbatim>\<open>page\<close>, \<^verbatim>\<open>pages\<close>
  and the like, none of them a built-in member of any value): the own property of an
  object, \<^verbatim>\<open>undefined\<close> on other values, a \<^verbatim>\<open>TypeError\<close> on \<^verbatim>\<open>undefined\<close> and
  \<^verbatim>\<open>null\<close>.
\<close>

definition own_field :: "(string \<times> jsval) list \<Rightarrow> string \<Rightarrow> jsval" where
  "own_field f k = (case map_of f k of Some v \<Rightarrow> v | None \<Rightarrow> Undefined)"

fun get_field :: "jsval \<Rightarrow> string \<Rightarrow> error + jsval" where
  "get_field Undefined k = Inl TypeError"
| "get_field Null k = Inl TypeError"
| "get_field (Obj _ f) k = Inr (own_field f k)"
| "get_field _ k = Inr Undefined"

text \<open>
  The rename registry \<^verbatim>\<open>renamedFiles\<close> is a plain object. Reading \<^verbatim>\<open>renamedFiles[key]\<close>
  yields the own property, else what \<^verbatim>\<open>Object.prototype\<close> has under that name
  (a function or object, hence truthy and not a string), else \<^verbatim>\<open>undefined\<close>.
\<close>

datatype lookup = Own string | Inherited | Absent

definition object_prototype_members :: "string list" where
  "object_prototype_members =
     [''constructor'', ''__defineGetter__'', ''__defineSetter__'', ''hasOwnProperty'',
      ''__lookupGetter__'', ''__lookupSetter__'', ''isPrototypeOf'', ''propertyIsEnumerable'',
      ''toString'', ''valueOf'', ''__proto__'', ''toLocaleString'']"

definition registry_get :: "(string \<times> string) list \<Rightarrow> string \<Rightarrow> lookup" where
  "registry_get reg k =
     (case map_of reg k of
        Some v \<Rightarrow> Own v
      | None \<Rightarrow> if k \<in> set object_prototype_members then Inherited else Absent)"

fun lookup_truthy :: "lookup \<Rightarrow> bool" where
  "lookup_truthy (Own v) = (v \<noteq> [])"
| "lookup_truthy Inherited = True"
| "lookup_truthy Absent = False"

text \<open>
  \<^verbatim>\<open>path.relative(from, renamedFiles[key])\<close> for a truthy entry: the path module rejects
  an argument that is not a string with a \<^verbatim>\<open>TypeError\<close>.
\<close>

fun relative_to_entry :: "string list \<Rightarrow> string \<Rightarrow> lookup \<Rightarrow> error + string" where
  "relative_to_entry cwd from (Own t) = Inr (path_relative cwd from t)"
| "relative_to_entry cwd from _ = Inl TypeError"

text \<open>The process-wide accumulators (lines 11 to 16).\<close>

record state =
  fileRbacPermissions :: "(string \<times> jsval) list"
  partialFolders :: "string list"
  apis :: "(string \<times> jsval) list"
  ignore :: "string list"
  renamedFiles :: "(string \<times> string) list"
  migrationInstructions :: string

definition initial_state :: state where
  "initial_state =
     \<lparr>fileRbacPermissions = [], partialFolders = [], apis = [], ignore = [''_*''],
      renamedFiles = [], migrationInstructions = ''# Manual migration instructions\<newline>\<newline>''\<rparr>"

text \<open>
  What \<^verbatim>\<open>tryFetchRemoteDefinition\<close> (lines 734 to 828) answers when it answers at all:
  the text of the definition if the download succeeded, a note on how to reconnect the
  folder, and a base name.
\<close>

record remote =
  remote_text :: "string option"
  remote_readme :: string
  remote_baseName :: string

text \<open>
  What the script takes from libraries and from the network and cannot be read off its
  own text: the YAML loader and dumper, \<^verbatim>\<open>JSON.stringify(v, null, 2)\<close>, the conversion of
  a value that is not a string to a string, the conversion of a string, an array or an
  object to a number (it throws when an object has no primitive value), and the answer of
  the registry for a definition path (the same for every request of one run).
\<close>

record extern =
  yaml_load :: "string \<Rightarrow> error + jsval"
  yaml_dump :: "jsval \<Rightarrow> string"
  json_stringify :: "jsval \<Rightarrow> string"
  to_string :: "jsval \<Rightarrow> string"
  to_number :: "jsval \<Rightarrow> error + number"
  fetch_remote :: "string \<Rightarrow> remote option"

section \<open>The frontmatter processor\<close>

record fm_result =
  frontmatter :: jsval
  changed :: bool
  len :: "nat option"

definition replace_tabs :: "string \<Rightarrow> string" where
  "replace_tabs s = concat (map (\<lambda>c. if c = CHR 0x09 then ''  '' else [c]) s)"

fun obj_delete :: "jsval \<Rightarrow> string \<Rightarrow> jsval" where
  "obj_delete (Obj r f) k = Obj r (prop_delete k f)"
| "obj_delete v k = v"

fun obj_assign :: "jsval \<Rightarrow> string \<Rightarrow> jsval \<Rightarrow> jsval" where
  "obj_assign (Obj r f) k v = Obj r (prop_assign k v f)"
| "obj_assign w k v = w"

definition property_key :: "extern \<Rightarrow> jsval \<Rightarrow> string" where
  "property_key ext v = (case v of Str s \<Rightarrow> s | _ \<Rightarrow> to_string ext v)"

text \<open>The \<^verbatim>\<open>reduce\<close> of lines 718 to 721.\<close>

definition redirects_of :: "extern \<Rightarrow> jsval list \<Rightarrow> jsval" where
  "redirects_of ext xs =
     Obj Fresh (foldl (\<lambda>acc str. prop_assign (property_key ext str) (Obj Fresh []) acc) [] xs)"

text \<open>
  \<^verbatim>\<open>processFrontMatter(content, filePath)\<close> (lines 705 to 730). A truthy
  \<^verbatim>\<open>redirectFrom\<close> that is not an array has no \<^verbatim>\<open>reduce\<close>: a \<^verbatim>\<open>TypeError\<close>.
\<close>

definition processFrontMatter ::
  "extern \<Rightarrow> string \<Rightarrow> string \<Rightarrow> state \<Rightarrow> error + (fm_result \<times> state)" where
  "processFrontMatter ext content filePath st =
     (case frontmatter_match content of
        None \<Rightarrow> Inr (\<lparr>frontmatter = Null, changed = False, len = None\<rparr>, st)
      | Some (block, n) \<Rightarrow>
          (case yaml_load ext (replace_tabs block) of
             Inl e \<Rightarrow> Inl e
           | Inr fm0 \<Rightarrow>
               (case get_field fm0 ''permission'' of
                  Inl e \<Rightarrow> Inl e
                | Inr permission \<Rightarrow>
                    (let st1 = (if truthy permission
                                then st\<lparr>fileRbacPermissions :=
                                          prop_assign filePath permission (fileRbacPermissions st)\<rparr>
                                else st);
                         fm1 = (if truthy permission then obj_delete fm0 ''permission'' else fm0);
                         changed1 = truthy permission
                     in case get_field fm1 ''redirectFrom'' of
                          Inl e \<Rightarrow> Inl e
                        | Inr redirectFrom \<Rightarrow>
                            (case (if truthy redirectFrom then
                                     (case redirectFrom of
                                        Arr _ xs \<Rightarrow>
                                          Inr (obj_delete
                                                 (obj_assign fm1 ''redirects'' (redirects_of ext xs))
                                                 ''redirectFrom'', True)
                                      | _ \<Rightarrow> Inl TypeError)
                                   else Inr (fm1, changed1)) of
                               Inl e \<Rightarrow> Inl e
                             | Inr (fm2, changed2) \<Rightarrow>
                                 (case get_field fm2 ''exclude'' of
                                    Inl e \<Rightarrow> Inl e
                                  | Inr exclude \<Rightarrow>
                                      Inr (\<lparr>frontmatter = fm2, changed = changed2, len = Some n\<rparr>,
                                           if truthy exclude
                                           then st1\<lparr>ignore := ignore st1 @ [filePath]\<rparr>
                                           else st1)))))))"

section \<open>The markup transformer and the link rewriter\<close>

text \<open>\<open>replace_all\<close> with a callback that updates a state.\<close>

function replace_all_state ::
  "(string \<Rightarrow> ('m \<times> nat) option) \<Rightarrow> ('m \<Rightarrow> 's \<Rightarrow> string \<times> 's) \<Rightarrow> string \<Rightarrow> 's \<Rightarrow> string \<times> 's" where
  "replace_all_state m f s st =
     (if s = [] then ([], st)
      else (case m s of
              None \<Rightarrow>
                (case replace_all_state m f (tl s) st of (out, st') \<Rightarrow> (hd s # out, st'))
            | Some (g, n) \<Rightarrow>
                (case f g st of
                   (r, st1) \<Rightarrow>
                     if n = 0 then
                       (case replace_all_state m f (tl s) st1 of (out, st') \<Rightarrow> (r @ hd s # out, st'))
                     else
                       (case replace_all_state m f (drop n s) st1 of (out, st') \<Rightarrow> (r @ out, st')))))"
  by pat_completeness auto
termination
  by (relation "measure (\<lambda>(m, f, s, st). length s)") auto

declare replace_all_state.simps [simp del]

text \<open>\<open>replace_all\<close> with a callback that may throw: the first exception ends the call.\<close>

function replace_all_err ::
  "(string \<Rightarrow> ('m \<times> nat) option) \<Rightarrow> ('m \<Rightarrow> error + string) \<Rightarrow> string \<Rightarrow> error + string" where
  "replace_all_err m f s =
     (if s = [] then Inr []
      else (case m s of
              None \<Rightarrow>
                (case replace_all_err m f (tl s) of Inl e \<Rightarrow> Inl e | Inr out \<Rightarrow> Inr (hd s # out))
            | Some (g, n) \<Rightarrow>
                (case f g of
                   Inl e \<Rightarrow> Inl e
                 | Inr r \<Rightarrow>
                     if n = 0 then
                       (case replace_all_err m f (tl s) of
                          Inl e \<Rightarrow> Inl e | Inr out \<Rightarrow> Inr (r @ hd s # out))
                     else
                       (case replace_all_err m f (drop n s) of
                          Inl e \<Rightarrow> Inl e | Inr out \<Rightarrow> Inr (r @ out)))))"
  by pat_completeness auto
termination
  by (relation "measure (\<lambda>(m, f, s). length s)") auto

declare replace_all_err.simps [simp del]

text \<open>\<^verbatim>\<open>partialFolders.add(folder)\<close>: a set keeps the first insertion.\<close>

definition set_add :: "string \<Rightarrow> string list \<Rightarrow> string list" where
  "set_add x xs = (if x \<in> set xs then xs else xs @ [x])"

text \<open>The callback of lines 106 to 113.\<close>

definition embed_callback :: "string list \<Rightarrow> string \<Rightarrow> string \<Rightarrow> string list \<Rightarrow> string \<times> string list" where
  "embed_callback cwd filePath src folders =
     (embed_replacement src,
      set_add (if starts_with src ''/'' then path_dirname (drop 1 src)
               else path_dirname (path_resolve cwd [path_dirname filePath, src])) folders)"

text \<open>\<^verbatim>\<open>slug\<close> (lines 633 to 638) and \<^verbatim>\<open>slugRoute\<close> (lines 640 to 642).\<close>

definition is_slug_char :: "char \<Rightarrow> bool" where
  "is_slug_char c = (let n = (of_char c :: nat) in (48 \<le> n \<and> n \<le> 57) \<or> (97 \<le> n \<and> n \<le> 122))"

text \<open>\<^verbatim>\<open>.replace(/[^a-z0-9]+/g, '-')\<close>\<close>

function hyphenate :: "string \<Rightarrow> string" where
  "hyphenate [] = []"
| "hyphenate (c # cs) =
     (if is_slug_char c then c # hyphenate cs
      else CHR ''-'' # hyphenate (dropWhile (\<lambda>x. \<not> is_slug_char x) cs))"
  by pat_completeness auto
termination
  by (relation "measure length") (auto simp: length_dropWhile_le less_Suc_eq_le)

text \<open>\<^verbatim>\<open>.replace(/^-|-$/g, '')\<close>\<close>

definition strip_hyphens :: "string \<Rightarrow> string" where
  "strip_hyphens s =
     (let s1 = (if starts_with s ''-'' then tl s else s)
      in if s1 \<noteq> [] \<and> last s1 = CHR ''-'' then butlast s1 else s1)"

definition slug :: "string \<Rightarrow> string" where
  "slug str = strip_hyphens (hyphenate (to_lower str))"

definition slugRoute :: "string \<Rightarrow> string" where
  "slugRoute str = join ''/'' (map slug (split_on (CHR ''/'') str))"

text \<open>The callback of lines 128 to 157, on the groups \<open>start\<close>, \<open>link\<close> and \<open>end\<close>.\<close>

definition link_callback ::
  "string list \<Rightarrow> (string \<times> string) list \<Rightarrow> string \<Rightarrow> string \<times> string \<times> string \<Rightarrow> error + string" where
  "link_callback cwd reg filePath g =
     (case g of (start, link, end) \<Rightarrow>
        let parts = split_on (CHR ''#'') link;
            fileLink = hd parts;
            hashSuffix = (case tl parts of [] \<Rightarrow> [] | hash # _ \<Rightarrow> if hash \<noteq> [] then ''#'' @ hash else []);
            relativeLink = path_relative cwd ''.''
              (if starts_with fileLink ''/'' then drop 1 fileLink
               else path_resolve cwd [path_dirname filePath, fileLink])
        in if lookup_truthy (registry_get reg relativeLink) then
             (case relative_to_entry cwd (path_dirname filePath) (registry_get reg relativeLink) of
                Inl e \<Rightarrow> Inl e
              | Inr target \<Rightarrow> Inr (start @ target @ hashSuffix @ end))
           else
             (let isRefLink =
                    (list_ex (\<lambda>f. ends_with f ''.page.yaml''
                                  \<and> starts_with link (''/'' @ slugRoute (replace_first f ''.page.yaml'' []) @ ''/''))
                             (map fst reg)
                     \<and> str_includes link ''/tag/'')
              in if isRefLink then Inr (start @ to_lower (replace_first link ''/tag/'' ''/'') @ end)
                 else Inr (start @ link @ end)))"

text \<open>\<^verbatim>\<open>s.slice(len)\<close>, where \<open>len\<close> may be \<^verbatim>\<open>undefined\<close>.\<close>

definition slice_from :: "nat option \<Rightarrow> string \<Rightarrow> string" where
  "slice_from n s = (case n of None \<Rightarrow> s | Some k \<Rightarrow> drop k s)"

text \<open>\<^verbatim>\<open>Object.keys(v || {}).length\<close>\<close>

fun own_key_count :: "jsval \<Rightarrow> nat" where
  "own_key_count (Obj _ f) = length f"
| "own_key_count (Arr _ xs) = length xs"
| "own_key_count (Str s) = length s"
| "own_key_count _ = 0"

text \<open>The three markup rewrites (lines 97 to 115), the embed callback recording folders.\<close>

definition transformMarkup ::
  "string list \<Rightarrow> string \<Rightarrow> string \<Rightarrow> string list \<Rightarrow> string \<times> string list" where
  "transformMarkup cwd filePath content folders =
     (case replace_all_state embed_match (embed_callback cwd filePath)
             (replace_all admonition_match admonition_replacement content) folders of
        (c2, folders') \<Rightarrow> (replace_all fence_match fence_replacement c2, folders'))"

text \<open>The splice of lines 119 to 125.\<close>

definition spliceFrontMatter :: "extern \<Rightarrow> string \<Rightarrow> fm_result \<Rightarrow> string" where
  "spliceFrontMatter ext newContent r =
     (if changed r then
        (if own_key_count (frontmatter r) = 0 then slice_from (len r) newContent
         else ''---\<newline>'' @ yaml_dump ext (frontmatter r) @ ''---\<newline>\<newline>''
              @ slice_from (len r) newContent)
      else newContent)"

text \<open>The link rewriter (lines 128 to 157).\<close>

definition rewriteLinks ::
  "string list \<Rightarrow> (string \<times> string) list \<Rightarrow> string \<Rightarrow> string \<Rightarrow> error + string" where
  "rewriteLinks cwd reg filePath newContent =
     replace_all_err link_match (link_callback cwd reg filePath) newContent"

text \<open>
  The body of the loop of \<^verbatim>\<open>migrateMarkdown\<close> (lines 95 to 157) on the content of one
  file: the new content and the accumulators.
\<close>

definition migrateMarkdownContent ::
  "extern \<Rightarrow> string list \<Rightarrow> string \<Rightarrow> string \<Rightarrow> state \<Rightarrow> error + (string \<times> state)" where
  "migrateMarkdownContent ext cwd filePath content st =
     (case transformMarkup cwd filePath content (partialFolders st) of
        (c3, folders) \<Rightarrow>
          (case processFrontMatter ext c3 filePath (st\<lparr>partialFolders := folders\<rparr>) of
             Inl e \<Rightarrow> Inl e
           | Inr (r, st2) \<Rightarrow>
               (case rewriteLinks cwd (renamedFiles st2) filePath (spliceFrontMatter ext c3 r) of
                  Inl e \<Rightarrow> Inl e
                | Inr c5 \<Rightarrow> Inr (c5, st2))))"

text \<open>
  The file system: the content of each file, under its resolved path.
\<close>

type_synonym fs = "string \<Rightarrow> string option"

definition readFileSync :: "string list \<Rightarrow> fs \<Rightarrow> string \<Rightarrow> error + string" where
  "readFileSync cwd files p =
     (case files (path_resolve cwd [p]) of None \<Rightarrow> Inl (ENOENT p) | Some c \<Rightarrow> Inr c)"

definition writeFileSync :: "string list \<Rightarrow> fs \<Rightarrow> string \<Rightarrow> string \<Rightarrow> fs" where
  "writeFileSync cwd files p c = files(path_resolve cwd [p] \<mapsto> c)"


section \<open>The navigation tree transformer\<close>

text \<open>
  \<^verbatim>\<open>v?.endsWith(suffix)\<close> in a condition: \<^verbatim>\<open>undefined\<close> and \<^verbatim>\<open>null\<close> give
  \<^verbatim>\<open>undefined\<close>, which is falsy; a value that is neither a string nor one of these has
  no \<^verbatim>\<open>endsWith\<close>, and calling it is a \<^verbatim>\<open>TypeError\<close>.
\<close>

fun opt_ends_with :: "jsval \<Rightarrow> string \<Rightarrow> error + bool" where
  "opt_ends_with Undefined suffix = Inr False"
| "opt_ends_with Null suffix = Inr False"
| "opt_ends_with (Str s) suffix = Inr (ends_with s suffix)"
| "opt_ends_with _ suffix = Inl TypeError"

text \<open>The decimal digits of a number, as an array index is written.\<close>

function decimal :: "nat \<Rightarrow> string" where
  "decimal n = (if n < 10 then [char_of (48 + n)] else decimal (n div 10) @ [char_of (48 + n mod 10)])"
  by pat_completeness auto
termination
  by (relation "measure id") auto

declare decimal.simps [simp del]

text \<open>
  The own enumerable properties of a value, which an object spread \<^verbatim>\<open>{...v}\<close> copies and
  \<^verbatim>\<open>Object.entries(v)\<close> lists: the fields of an object, the elements of an array and the
  units of a string under their indices, nothing for the other values.
\<close>

fun own_props :: "jsval \<Rightarrow> (string \<times> jsval) list" where
  "own_props (Obj _ f) = f"
| "own_props (Arr _ xs) = zip (map decimal [0..<length xs]) xs"
| "own_props (Str s) = zip (map decimal [0..<length s]) (map (\<lambda>c. Str [c]) s)"
| "own_props _ = []"

fun str_of :: "jsval \<Rightarrow> string" where
  "str_of (Str s) = s"
| "str_of _ = []"

text \<open>
  The registry key of a page of a structured-page collection (lines 209 and 226) and of
  any other page (line 238).
\<close>

definition pageYamlFile :: "string list \<Rightarrow> string \<Rightarrow> string \<Rightarrow> string" where
  "pageYamlFile cwd filePath page =
     path_relative cwd ''.'' (path_resolve cwd [path_dirname filePath, replace_first page ''/*'' []])"

definition relativeLink :: "string list \<Rightarrow> string \<Rightarrow> string \<Rightarrow> string" where
  "relativeLink cwd filePath page =
     path_relative cwd ''.'' (path_resolve cwd [path_dirname filePath, page])"

text \<open>
  The lookup of lines 210 to 215 and 227 to 233: a falsy entry throws
  \<^verbatim>\<open>No renamed file found for ...\<close>; else the new \<^verbatim>\<open>page\<close> is the entry relative to the
  directory of the tree file.
\<close>

definition renamed_page ::
  "string list \<Rightarrow> (string \<times> string) list \<Rightarrow> string \<Rightarrow> string \<Rightarrow> error + string" where
  "renamed_page cwd reg filePath page =
     (let key = pageYamlFile cwd filePath page
      in if \<not> lookup_truthy (registry_get reg key) then Inl (NoRenamedFile key)
         else relative_to_entry cwd (path_dirname filePath) (registry_get reg key))"

text \<open>The branch of an item without \<^verbatim>\<open>pages\<close> (lines 207 to 247).\<close>

definition transformPage ::
  "string list \<Rightarrow> (string \<times> string) list \<Rightarrow> string \<Rightarrow> jsval \<Rightarrow> error + jsval" where
  "transformPage cwd reg filePath item =
     (case get_field item ''page'' of
        Inl e \<Rightarrow> Inl e
      | Inr page \<Rightarrow>
          (case opt_ends_with page ''/*'' of
             Inl e \<Rightarrow> Inl e
           | Inr True \<Rightarrow>
               if ends_with (str_of page) ''.page.yaml/*'' then
                 (case renamed_page cwd reg filePath (str_of page) of
                    Inl e \<Rightarrow> Inl e
                  | Inr target \<Rightarrow> Inr (Obj Fresh (prop_set ''page'' (Str target) (own_props item))))
               else
                 Inr (Obj Fresh
                       (prop_set ''directory'' (Str (take (length (str_of page) - 2) (str_of page)))
                          (prop_set ''page'' Undefined (own_props item))))
           | Inr False \<Rightarrow>
               (case opt_ends_with page ''.page.yaml'' of
                  Inl e \<Rightarrow> Inl e
                | Inr True \<Rightarrow>
                    (case renamed_page cwd reg filePath (str_of page) of
                       Inl e \<Rightarrow> Inl e
                     | Inr target \<Rightarrow>
                         Inr (Obj Fresh
                               (prop_set ''page'' (Str target)
                                  (prop_set ''group''
                                     (if truthy (own_field (own_props item) ''label'')
                                      then own_field (own_props item) ''label''
                                      else own_field (own_props item) ''group'')
                                     (own_props item)))))
                | Inr False \<Rightarrow>
                    if truthy page
                       \<and> lookup_truthy (registry_get reg (relativeLink cwd filePath (str_of page)))
                    then
                      (case relative_to_entry cwd (path_dirname filePath)
                              (registry_get reg (relativeLink cwd filePath (str_of page))) of
                         Inl e \<Rightarrow> Inl e
                       | Inr target \<Rightarrow>
                           Inr (Obj Fresh (prop_set ''page'' (Str target) (own_props item))))
                    else Inr item)))"

text \<open>
  \<^verbatim>\<open>transformSidebarItems(items, filePath)\<close> (lines 196 to 250): \<^verbatim>\<open>items.map\<close> exists on
  an array only; the callback runs on the items in order, and the first exception ends
  the call.
\<close>

function transformSidebarItems ::
    "string list \<Rightarrow> (string \<times> string) list \<Rightarrow> string \<Rightarrow> jsval \<Rightarrow> error + jsval"
  and transformSidebarList ::
    "string list \<Rightarrow> (string \<times> string) list \<Rightarrow> string \<Rightarrow> jsval list \<Rightarrow> error + jsval list"
  and transformSidebarItem ::
    "string list \<Rightarrow> (string \<times> string) list \<Rightarrow> string \<Rightarrow> jsval \<Rightarrow> error + jsval"
where
  "transformSidebarItems cwd reg filePath items =
     (case items of
        Arr _ xs \<Rightarrow>
          (case transformSidebarList cwd reg filePath xs of
             Inl e \<Rightarrow> Inl e
           | Inr ys \<Rightarrow> Inr (Arr Fresh ys))
      | _ \<Rightarrow> Inl TypeError)"
| "transformSidebarList cwd reg filePath [] = Inr []"
| "transformSidebarList cwd reg filePath (x # xs) =
     (case transformSidebarItem cwd reg filePath x of
        Inl e \<Rightarrow> Inl e
      | Inr y \<Rightarrow>
          (case transformSidebarList cwd reg filePath xs of
             Inl e \<Rightarrow> Inl e
           | Inr ys \<Rightarrow> Inr (y # ys)))"
| "transformSidebarItem cwd reg filePath item =
     (case get_field item ''pages'' of
        Inl e \<Rightarrow> Inl e
      | Inr pages \<Rightarrow>
          if truthy pages then
            (case transformSidebarItems cwd reg filePath pages of
               Inl e \<Rightarrow> Inl e
             | Inr items \<Rightarrow>
                 Inr (Obj Fresh
                       (prop_set ''items'' items (prop_set ''pages'' Undefined (own_props item)))))
          else transformPage cwd reg filePath item)"
  by pat_completeness auto
termination
proof (relation "measure (\<lambda>x. case x of
          Inl (cwd, reg, filePath, items) \<Rightarrow> 2 * size items + 1
        | Inr (Inl (cwd, reg, filePath, xs)) \<Rightarrow> 2 * size_list size xs
        | Inr (Inr (cwd, reg, filePath, item)) \<Rightarrow> 2 * size item)", goal_cases)
  case 1
  show ?case by simp
next
  case (2 cwd reg filePath items r xs)
  then show ?case by simp
next
  case (3 cwd reg filePath x xs)
  then show ?case by simp
next
  case (4 cwd reg filePath x xs y)
  then show ?case by simp
next
  case (5 cwd reg filePath item pages)
  have "size pages < size item"
  proof (cases item)
    case (Obj a f)
    with 5 have "own_field f ''pages'' = pages" by simp
    with 5(2) have "map_of f ''pages'' = Some pages"
      by (auto simp: own_field_def split: option.splits)
    then have "(''pages'', pages) \<in> set f" by (rule map_of_SomeD)
    then have "size_prod (\<lambda>x. 0) size (''pages'', pages) \<le> size_list (size_prod (\<lambda>x. 0) size) f"
      by (intro size_list_estimation'[where y = "size_prod (\<lambda>x. 0) size (''pages'', pages)"]) auto
    then show ?thesis using Obj by simp
  qed (use 5 in auto)
  then show ?case by simp
qed

declare transformSidebarItems.simps [simp del]
declare transformSidebarItem.simps [simp del]

text \<open>The loop over \<^verbatim>\<open>Object.entries(data)\<close> of lines 185 to 192; \<open>idx\<close> is the index.\<close>

fun sidebarEntries ::
  "extern \<Rightarrow> string list \<Rightarrow> (string \<times> string) list \<Rightarrow> string \<Rightarrow> (string \<times> jsval) list \<Rightarrow> nat \<Rightarrow> fs
   \<Rightarrow> error + fs" where
  "sidebarEntries ext cwd reg filePath [] idx files = Inr files"
| "sidebarEntries ext cwd reg filePath ((key, data) # rest) idx files =
     (case transformSidebarItems cwd reg filePath data of
        Inl e \<Rightarrow> Inl e
      | Inr newData \<Rightarrow>
          sidebarEntries ext cwd reg filePath rest (Suc idx)
            (if \<not> dequal data newData then
               writeFileSync cwd files
                 (path_join [path_dirname filePath,
                             (if idx = 0 then [] else slug key @ ''.'') @ ''sidebars.yaml''])
                 (yaml_dump ext newData)
             else files))"

text \<open>\<^verbatim>\<open>typeof data === 'object' && data !== null\<close>\<close>

fun is_object :: "jsval \<Rightarrow> bool" where
  "is_object (Arr _ _) = True"
| "is_object (Obj _ _) = True"
| "is_object _ = False"

text \<open>
  \<^verbatim>\<open>migrateSidebars\<close> (lines 165 to 194) over the listing \<open>sidebars\<close>, with the registry
  as the earlier passes left it. The \<^verbatim>\<open>return\<close> of line 176 leaves the function.
\<close>

fun migrateSidebars ::
  "extern \<Rightarrow> string list \<Rightarrow> (string \<times> string) list \<Rightarrow> string list \<Rightarrow> fs \<Rightarrow> error + fs" where
  "migrateSidebars ext cwd reg [] files = Inr files"
| "migrateSidebars ext cwd reg (filePath # rest) files =
     (case readFileSync cwd files filePath of
        Inl e \<Rightarrow> Inl e
      | Inr content \<Rightarrow>
          (case yaml_load ext content of
             Inl e \<Rightarrow> Inl e
           | Inr data \<Rightarrow>
               if \<not> is_object data then Inr files
               else
                 (case data of
                    Arr _ _ \<Rightarrow>
                      (case transformSidebarItems cwd reg filePath data of
                         Inl e \<Rightarrow> Inl e
                       | Inr newData \<Rightarrow>
                           migrateSidebars ext cwd reg rest
                             (if \<not> dequal data newData
                              then writeFileSync cwd files filePath (yaml_dump ext newData)
                              else files))
                  | _ \<Rightarrow>
                      (case sidebarEntries ext cwd reg filePath (own_props data) 0 files of
                         Inl e \<Rightarrow> Inl e
                       | Inr files' \<Rightarrow> migrateSidebars ext cwd reg rest files'))))"

section \<open>The relocating passes\<close>

text \<open>
  Removing and renaming a file. Directories are not part of the file system modelled here:
  creating one (\<^verbatim>\<open>mkdirSync\<close> with \<^verbatim>\<open>recursive\<close>) changes nothing and always succeeds, and a
  rename into a directory that does not exist, which Node refuses, succeeds here.
\<close>

definition unlinkSync :: "string list \<Rightarrow> fs \<Rightarrow> string \<Rightarrow> error + fs" where
  "unlinkSync cwd files p =
     (case files (path_resolve cwd [p]) of
        None \<Rightarrow> Inl (ENOENT p)
      | Some c \<Rightarrow> Inr (files(path_resolve cwd [p] := None)))"

definition renameSync :: "string list \<Rightarrow> fs \<Rightarrow> string \<Rightarrow> string \<Rightarrow> error + fs" where
  "renameSync cwd files old new =
     (case files (path_resolve cwd [old]) of
        None \<Rightarrow> Inl (ENOENT old)
      | Some c \<Rightarrow>
          if path_resolve cwd [old] = path_resolve cwd [new] then Inr files
          else Inr (files(path_resolve cwd [old] := None, path_resolve cwd [new] \<mapsto> c)))"

text \<open>
  The write to the rename registry, \<^verbatim>\<open>renamedFiles[path.normalize(filePath)] = renamed\<close>
  (lines 342, 352, 607 and 622).
\<close>

definition recordRename :: "string \<Rightarrow> string \<Rightarrow> state \<Rightarrow> state" where
  "recordRename filePath renamed st =
     st\<lparr>renamedFiles := prop_assign (path_normalize filePath) renamed (renamedFiles st)\<rparr>"

text \<open>A value inside a template literal or on the right of \<^verbatim>\<open>'@' +\<close>.\<close>

definition display :: "extern \<Rightarrow> jsval \<Rightarrow> string" where
  "display ext v = (case v of Str s \<Rightarrow> s | _ \<Rightarrow> to_string ext v)"

text \<open>
  \<^verbatim>\<open>v.name\<close> on a value known not to be \<^verbatim>\<open>undefined\<close> or \<^verbatim>\<open>null\<close>, for the names the
  script reads.
\<close>

definition field :: "jsval \<Rightarrow> string \<Rightarrow> jsval" where
  "field v k = (case v of Obj _ f \<Rightarrow> own_field f k | _ \<Rightarrow> Undefined)"

text \<open>\<^verbatim>\<open>emptyOas(title)\<close> (lines 24 to 34).\<close>

definition emptyOas :: "string \<Rightarrow> string" where
  "emptyOas title =
     ''openapi: 3.1.0\<newline>info:\<newline>  title: '' @ title
     @ ''\<newline>  version: 1.0.0\<newline>  description: |\<newline>''
     @ ''    {% admonition type=\"danger\" name=\"Example file\" %}\<newline>''
     @ ''      This file was automatically generated and should be replaced with the actual OpenAPI definition.\<newline>''
     @ ''      Please, connect remote content in Reunite.\<newline>''
     @ ''    {% /admonition %}\<newline>paths: {}\<newline>''"

text \<open>\<^verbatim>\<open>migrateRefDocsSettings(settings)\<close> (lines 419 to 427).\<close>

definition migrateRefDocsSettings :: "jsval \<Rightarrow> jsval" where
  "migrateRefDocsSettings settings =
     Obj Fresh
       (prop_set ''pagination'' Undefined
          (prop_set ''generateCodeSamples'' Undefined
             (prop_set ''codeSamples'' (field settings ''generateCodeSamples'')
                (own_props settings))))"

text \<open>
  The run of \<^verbatim>\<open>migrateOpenAPI\<close>: the accumulators, the file system, and the local flag
  \<^verbatim>\<open>addedRegistryRecord\<close>.
\<close>

type_synonym world = "state \<times> fs \<times> bool"

text \<open>
  \<^verbatim>\<open>fileRbacPermissions[path.relative('.', target)] = pageYaml.permission\<close> when the
  permission is truthy (lines 397 to 399 and 412 to 414).
\<close>

definition recordPermission :: "string list \<Rightarrow> jsval \<Rightarrow> string \<Rightarrow> state \<Rightarrow> state" where
  "recordPermission cwd pageYaml target st =
     (if truthy (field pageYaml ''permission'') then
        st\<lparr>fileRbacPermissions :=
             prop_assign (path_relative cwd ''.'' target) (field pageYaml ''permission'')
               (fileRbacPermissions st)\<rparr>
      else st)"

text \<open>\<^verbatim>\<open>definitionPath.match(/https?:\/\//)\<close>\<close>

definition is_remote :: "string \<Rightarrow> bool" where
  "is_remote s = (str_includes s ''http://'' \<or> str_includes s ''https://'')"

text \<open>
  \<^verbatim>\<open>migratePageYaml(definitionId, pageYaml, targetPath, versioned)\<close> (lines 356 to 417),
  with \<open>oasDefinitions\<close> the fields of the mapping of line 321. The result is the value
  returned, \<open>None\<close> for \<^verbatim>\<open>undefined\<close>. A definition path that is truthy and not a string
  has no \<^verbatim>\<open>match\<close>: a \<^verbatim>\<open>TypeError\<close>; so has the inherited member a built-in name
  finds.
\<close>

definition migratePageYaml ::
  "extern \<Rightarrow> string list \<Rightarrow> (string \<times> jsval) list \<Rightarrow> jsval \<Rightarrow> jsval \<Rightarrow> string \<Rightarrow> bool \<Rightarrow> world
   \<Rightarrow> error + (string option \<times> world)" where
  "migratePageYaml ext cwd oasDefinitions definitionId pageYaml targetPath versioned w =
     (case w of (st, files, added) \<Rightarrow>
      let key = property_key ext definitionId in
      case map_of oasDefinitions key of
        None \<Rightarrow> if key \<in> set object_prototype_members then Inl TypeError else Inr (None, w)
      | Some definitionPath \<Rightarrow>
          if \<not> truthy definitionPath then Inr (None, w)
          else
            (case definitionPath of
               Str p \<Rightarrow>
                 if is_remote p then
                   (let dir = (if versioned then path_dirname targetPath
                               else path_join [path_dirname targetPath,
                                               path_basename targetPath ''.yaml'']);
                        info = fetch_remote ext p;
                        baseName = (case info of
                                      Some i \<Rightarrow> if remote_baseName i \<noteq> [] then remote_baseName i
                                                else path_basename p []
                                    | None \<Rightarrow> path_basename p []);
                        newTargetPath = path_join [dir, baseName];
                        st1 = st\<lparr>apis :=
                                prop_assign key
                                  (Obj Fresh
                                     (prop_set ''output'' (Str (path_join [dir, ''index.yaml'']))
                                        (prop_set ''root'' (Str newTargetPath)
                                           (own_props (own_field (apis st) key)))))
                                  (apis st)\<rparr>;
                        title = (if truthy (field pageYaml ''title'') then field pageYaml ''title''
                                 else if truthy (field pageYaml ''label'') then field pageYaml ''label''
                                 else definitionId);
                        content = (case info of
                                     Some i \<Rightarrow> (case remote_text i of
                                                  Some t \<Rightarrow> if t \<noteq> [] then t
                                                            else emptyOas (display ext title)
                                                | None \<Rightarrow> emptyOas (display ext title))
                                   | None \<Rightarrow> emptyOas (display ext title));
                        files1 = writeFileSync cwd files newTargetPath content;
                        readme = (case info of Some i \<Rightarrow> remote_readme i | None \<Rightarrow> []);
                        st2 = (if readme \<noteq> [] then
                                 st1\<lparr>migrationInstructions :=
                                   migrationInstructions st1
                                   @ (if \<not> added then
                                        ''## Registry OpenAPI files\<newline>\<newline>''
                                        @ ''OpenAPI files from registry has to be replaced with [Remote content](https://redocly.com/docs/realm/setup/how-to/remote-content)\<newline>\<newline>''
                                      else [])
                                   @ ''* Connect folder `'' @ dir @ ''`:\<newline>'' @ readme @ ''\<newline>''\<rparr>
                               else st1)
                    in Inr (Some newTargetPath,
                            (recordPermission cwd pageYaml newTargetPath st2, files1,
                             added \<or> readme \<noteq> [])))
                 else
                   (case renameSync cwd files p targetPath of
                      Inl e \<Rightarrow> Inl e
                    | Inr files1 \<Rightarrow>
                        (let st1 = (if truthy (field pageYaml ''settings'') then
                                      st\<lparr>apis :=
                                        prop_assign key
                                          (Obj Fresh
                                             [(''root'', Str (path_relative cwd ''.'' targetPath)),
                                              (''theme'',
                                               Obj Fresh
                                                 [(''openapi'',
                                                   migrateRefDocsSettings (field pageYaml ''settings''))])])
                                          (apis st)\<rparr>
                                    else st)
                         in Inr (Some targetPath,
                                 (recordPermission cwd pageYaml targetPath st1, files1, added))))
             | _ \<Rightarrow> Inl TypeError))"

text \<open>\<^verbatim>\<open>if (renamed) renamedFiles[path.normalize(filePath)] = renamed\<close>\<close>

definition recordIfRenamed :: "string \<Rightarrow> string option \<Rightarrow> world \<Rightarrow> world" where
  "recordIfRenamed filePath renamed w =
     (case w of (st, files, added) \<Rightarrow>
        (case renamed of
           Some r \<Rightarrow> if r \<noteq> [] then (recordRename filePath r st, files, added) else w
         | None \<Rightarrow> w))"

text \<open>
  The loop over the versions of one file (lines 329 to 343); a version without a
  truthy \<^verbatim>\<open>definitionId\<close> is skipped.
\<close>

fun migrateVersions ::
  "extern \<Rightarrow> string list \<Rightarrow> (string \<times> jsval) list \<Rightarrow> string \<Rightarrow> jsval list \<Rightarrow> world \<Rightarrow> error + world" where
  "migrateVersions ext cwd oasDefinitions filePath [] w = Inr w"
| "migrateVersions ext cwd oasDefinitions filePath (version # rest) w =
     (case get_field version ''definitionId'' of
        Inl e \<Rightarrow> Inl e
      | Inr definitionId \<Rightarrow>
          if \<not> truthy definitionId then migrateVersions ext cwd oasDefinitions filePath rest w
          else
            (case migratePageYaml ext cwd oasDefinitions definitionId version
                    (path_join [path_dirname filePath, path_basename filePath ''.page.yaml'',
                                ''@'' @ display ext (field version ''id''), ''index.yaml''])
                    True w of
               Inl e \<Rightarrow> Inl e
             | Inr (renamed, w1) \<Rightarrow>
                 migrateVersions ext cwd oasDefinitions filePath rest
                   (recordIfRenamed filePath renamed w1)))"

text \<open>
  \<^verbatim>\<open>v > 1\<close>: the value is converted to a number; \<^verbatim>\<open>undefined\<close> becomes not-a-number,
  \<^verbatim>\<open>null\<close> and \<^verbatim>\<open>false\<close> become 0, \<^verbatim>\<open>true\<close> becomes 1.
\<close>

fun number_above_one :: "number \<Rightarrow> bool" where
  "number_above_one (Finite x) = (1 < x)"
| "number_above_one PosInf = True"
| "number_above_one _ = False"

fun greater_than_one :: "extern \<Rightarrow> jsval \<Rightarrow> error + bool" where
  "greater_than_one ext Undefined = Inr False"
| "greater_than_one ext Null = Inr False"
| "greater_than_one ext (Bool b) = Inr False"
| "greater_than_one ext (Num n) = Inr (number_above_one n)"
| "greater_than_one ext v =
     (case to_number ext v of Inl e \<Rightarrow> Inl e | Inr n \<Rightarrow> Inr (number_above_one n))"

text \<open>
  \<^verbatim>\<open>pageYaml.versions.length > 1\<close> for a truthy \<^verbatim>\<open>versions\<close>: the length of an array or a
  string; on an object the own property \<^verbatim>\<open>length\<close>, whatever it is; \<^verbatim>\<open>undefined\<close> on a
  number and on \<^verbatim>\<open>true\<close>.
\<close>

fun longer_than_one :: "extern \<Rightarrow> jsval \<Rightarrow> error + bool" where
  "longer_than_one ext (Arr _ xs) = Inr (1 < length xs)"
| "longer_than_one ext (Str s) = Inr (1 < length s)"
| "longer_than_one ext (Obj _ f) = greater_than_one ext (own_field f ''length'')"
| "longer_than_one ext _ = Inr False"

text \<open>\<^verbatim>\<open>pageYaml.versions?.[0]?.definitionId\<close>\<close>

fun first_version :: "jsval \<Rightarrow> jsval" where
  "first_version (Arr _ xs) = js_nth xs 0"
| "first_version (Str s) = (case s of [] \<Rightarrow> Undefined | c # _ \<Rightarrow> Str [c])"
| "first_version (Obj _ f) = own_field f ''0''"
| "first_version _ = Undefined"

text \<open>
  The body of the loop over the files (lines 326 to 353). The units of a string of
  versions have no \<^verbatim>\<open>definitionId\<close> and are all skipped; an object is not iterable.
\<close>

definition migratePageYamlFile ::
  "extern \<Rightarrow> string list \<Rightarrow> (string \<times> jsval) list \<Rightarrow> string \<Rightarrow> world \<Rightarrow> error + world" where
  "migratePageYamlFile ext cwd oasDefinitions filePath w =
     (case w of (st, files, added) \<Rightarrow>
      case readFileSync cwd files filePath of
        Inl e \<Rightarrow> Inl e
      | Inr content \<Rightarrow>
          (case yaml_load ext content of
             Inl e \<Rightarrow> Inl e
           | Inr pageYaml \<Rightarrow>
               (case unlinkSync cwd files filePath of
                  Inl e \<Rightarrow> Inl e
                | Inr files1 \<Rightarrow>
                    (case get_field pageYaml ''versions'' of
                       Inl e \<Rightarrow> Inl e
                     | Inr versions \<Rightarrow>
                         (case (if truthy versions then longer_than_one ext versions
                                else Inr False) of
                            Inl e \<Rightarrow> Inl e
                          | Inr True \<Rightarrow>
                              (case versions of
                                 Arr _ xs \<Rightarrow>
                                   migrateVersions ext cwd oasDefinitions filePath xs
                                     (st, files1, added)
                               | Str s \<Rightarrow> Inr (st, files1, added)
                               | _ \<Rightarrow> Inl TypeError)
                          | Inr False \<Rightarrow>
                              (let definitionId =
                                     (if truthy (field pageYaml ''definitionId'')
                                      then field pageYaml ''definitionId''
                                      else field (first_version versions) ''definitionId'')
                               in if \<not> truthy definitionId then Inr (st, files1, added)
                                  else
                                    (case migratePageYaml ext cwd oasDefinitions definitionId
                                            pageYaml
                                            (replace_first filePath ''.page.yaml'' ''.yaml'') False
                                            (st, files1, added) of
                                       Inl e \<Rightarrow> Inl e
                                     | Inr (renamed, w1) \<Rightarrow>
                                         Inr (recordIfRenamed filePath renamed w1))))))))"

fun migratePageYamlFiles ::
  "extern \<Rightarrow> string list \<Rightarrow> (string \<times> jsval) list \<Rightarrow> string list \<Rightarrow> world \<Rightarrow> error + world" where
  "migratePageYamlFiles ext cwd oasDefinitions [] w = Inr w"
| "migratePageYamlFiles ext cwd oasDefinitions (filePath # rest) w =
     (case migratePageYamlFile ext cwd oasDefinitions filePath w of
        Inl e \<Rightarrow> Inl e
      | Inr w1 \<Rightarrow> migratePageYamlFiles ext cwd oasDefinitions rest w1)"

text \<open>
  \<^verbatim>\<open>migrateOpenAPI\<close> (lines 315 to 428) over the listing \<open>pageYamlFiles\<close>:
  \<^verbatim>\<open>siteConfig?.oasDefinitions || {}\<close> gives the definitions.
\<close>

definition migrateOpenAPI ::
  "extern \<Rightarrow> string list \<Rightarrow> string list \<Rightarrow> state \<times> fs \<Rightarrow> error + (state \<times> fs)" where
  "migrateOpenAPI ext cwd pageYamlFiles sf =
     (case sf of (st, files) \<Rightarrow>
      case readFileSync cwd files ''siteConfig.yaml'' of
        Inl e \<Rightarrow> Inl e
      | Inr content \<Rightarrow>
          (case yaml_load ext content of
             Inl e \<Rightarrow> Inl e
           | Inr siteConfig \<Rightarrow>
               (let oasDefinitions =
                      (if truthy (field siteConfig ''oasDefinitions'')
                       then own_props (field siteConfig ''oasDefinitions'') else [])
                in case migratePageYamlFiles ext cwd oasDefinitions pageYamlFiles (st, files, False) of
                     Inl e \<Rightarrow> Inl e
                   | Inr (st', files', added) \<Rightarrow> Inr (st', files'))))"

text \<open>\<^verbatim>\<open>content.match(/^#+\s*\w/m)\<close>: the pattern at the head of a line.\<close>

definition heading_here :: "string \<Rightarrow> bool" where
  "heading_here t =
     (starts_with t ''#''
      \<and> (case dropWhile is_space (dropWhile (\<lambda>c. c = CHR ''#'') t) of
            [] \<Rightarrow> False
          | c # _ \<Rightarrow> is_word c))"

fun has_heading :: "bool \<Rightarrow> string \<Rightarrow> bool" where
  "has_heading line_start [] = False"
| "has_heading line_start (c # cs) =
     ((line_start \<and> heading_here (c # cs)) \<or> has_heading (is_line_terminator c) cs)"

datatype mdx_type = Md | Tsx

text \<open>\<^verbatim>\<open>detectMdxType(content)\<close> (lines 574 to 579).\<close>

definition detectMdxType :: "string \<Rightarrow> mdx_type" where
  "detectMdxType content = (if has_heading True content then Md else Tsx)"

text \<open>\<^verbatim>\<open>filePath.replace(/\.mdx$/, extension)\<close>\<close>

definition replace_mdx :: "string \<Rightarrow> string \<Rightarrow> string" where
  "replace_mdx filePath extension =
     (if ends_with filePath ''.mdx'' then take (length filePath - 4) filePath @ extension
      else filePath)"

text \<open>\<^verbatim>\<open>convertMdxToTsx(content, filePath)\<close> (lines 581 to 608).\<close>

definition convertMdxToTsx ::
  "extern \<Rightarrow> string list \<Rightarrow> string \<Rightarrow> string \<Rightarrow> state \<times> fs \<Rightarrow> error + (state \<times> fs)" where
  "convertMdxToTsx ext cwd content filePath sf =
     (case sf of (st, files) \<Rightarrow>
      let newFilePath = replace_mdx filePath ''.page.tsx'' in
      case processFrontMatter ext content newFilePath st of
        Inl e \<Rightarrow> Inl e
      | Inr (r, st1) \<Rightarrow>
          (let newContent = slice_from (len r) content;
               frontmatterStr =
                 (if truthy (frontmatter r) then
                    ''\<newline>\<newline>export const frontmatter = '' @ json_stringify ext (frontmatter r)
                    @ '';\<newline>\<newline>''
                  else []);
               files1 = writeFileSync cwd files newFilePath
                 (''import * as React from '' @ [CHR 0x27] @ ''react'' @ [CHR 0x27] @ '';\<newline>\<newline>''
                  @ ''// import { WideTile, Jumbotron } from '' @ [CHR 0x27]
                  @ ''@redocly/portal-legacy-ui'' @ [CHR 0x27] @ '';\<newline>\<newline>''
                  @ frontmatterStr
                  @ ''export default function Page() {\<newline>''
                  @ ''  return <div>TODO: migrate manually</div>;\<newline>''
                  @ ''  /*\<newline>''
                  @ join ''\<newline>'' (map (\<lambda>line. ''  '' @ line) (split_on (CHR ''\<newline>'') newContent))
                  @ ''  */\<newline>''
                  @ ''}\<newline>'')
           in case unlinkSync cwd files1 filePath of
                Inl e \<Rightarrow> Inl e
              | Inr files2 \<Rightarrow> Inr (recordRename filePath newFilePath st1, files2)))"

text \<open>\<^verbatim>\<open>convertMdxToMd(content, filePath)\<close> (lines 610 to 623).\<close>

definition convertMdxToMd ::
  "extern \<Rightarrow> string list \<Rightarrow> string \<Rightarrow> string \<Rightarrow> state \<times> fs \<Rightarrow> error + (state \<times> fs)" where
  "convertMdxToMd ext cwd content filePath sf =
     (case sf of (st, files) \<Rightarrow>
      let newFilePath = replace_mdx filePath ''.md'' in
      case processFrontMatter ext content newFilePath st of
        Inl e \<Rightarrow> Inl e
      | Inr (r, st1) \<Rightarrow>
          (let newContent = slice_from (len r) content;
               frontmatterStr =
                 (if truthy (frontmatter r) \<and> 0 < own_key_count (frontmatter r) then
                    ''---\<newline>'' @ yaml_dump ext (frontmatter r) @ ''---\<newline>\<newline>''
                  else []);
               banner = ''<!--\<newline>This file was automatically renamed from MDX to Markdown.\<newline>''
                        @ ''Please, review and update the content.\<newline>-->\<newline>\<newline>'';
               files1 = writeFileSync cwd files newFilePath (frontmatterStr @ banner @ newContent)
           in case unlinkSync cwd files1 filePath of
                Inl e \<Rightarrow> Inl e
              | Inr files2 \<Rightarrow> Inr (recordRename filePath newFilePath st1, files2)))"

text \<open>The loop of \<^verbatim>\<open>migrateMdx\<close> (lines 561 to 572).\<close>

fun migrateMdxFiles ::
  "extern \<Rightarrow> string list \<Rightarrow> string list \<Rightarrow> state \<times> fs \<Rightarrow> error + (state \<times> fs)" where
  "migrateMdxFiles ext cwd [] sf = Inr sf"
| "migrateMdxFiles ext cwd (filePath # rest) sf =
     (case readFileSync cwd (snd sf) filePath of
        Inl e \<Rightarrow> Inl e
      | Inr content \<Rightarrow>
          (case (case detectMdxType content of
                   Md \<Rightarrow> convertMdxToMd ext cwd content filePath sf
                 | Tsx \<Rightarrow> convertMdxToTsx ext cwd content filePath sf) of
             Inl e \<Rightarrow> Inl e
           | Inr (st1, files1) \<Rightarrow>
               migrateMdxFiles ext cwd rest
                 (st1\<lparr>migrationInstructions :=
                        migrationInstructions st1 @ ''* `'' @ path_relative cwd ''.'' filePath
                        @ ''`\<newline>''\<rparr>,
                  files1)))"

text \<open>\<^verbatim>\<open>migrateMdx\<close> (lines 552 to 624) over the listing \<open>mdxFiles\<close>.\<close>

definition migrateMdx ::
  "extern \<Rightarrow> string list \<Rightarrow> string list \<Rightarrow> state \<times> fs \<Rightarrow> error + (state \<times> fs)" where
  "migrateMdx ext cwd mdxFiles sf =
     (if mdxFiles = [] then Inr sf
      else migrateMdxFiles ext cwd mdxFiles
             (fst sf\<lparr>migrationInstructions :=
                       migrationInstructions (fst sf) @ ''## MDX files\<newline>\<newline>''
                       @ ''Please, review and migrate MDX files manually:\<newline>\<newline>''\<rparr>,
              snd sf))"

section \<open>Predicates and examples for stating the properties\<close>

text \<open>The text from each position on.\<close>

fun positions :: "string \<Rightarrow> string list" where
  "positions [] = []"
| "positions (c # cs) = (c # cs) # positions cs"


text \<open>Every link of the text is one the link rewriter returns as it found it.\<close>

definition links_kept :: "string list \<Rightarrow> (string \<times> string) list \<Rightarrow> string \<Rightarrow> string \<Rightarrow> bool" where
  "links_kept cwd reg filePath s =
     list_all (\<lambda>t. case link_match t of
                      None \<Rightarrow> True
                    | Some (g, n) \<Rightarrow> link_callback cwd reg filePath g = Inr (take n t))
              (positions s)"

text \<open>
  The working directory as the process reports it: no segment is empty, \<^verbatim>\<open>.\<close> or
  \<^verbatim>\<open>..\<close>, none contains a slash.
\<close>

definition valid_cwd :: "string list \<Rightarrow> bool" where
  "valid_cwd cwd =
     list_all (\<lambda>s. s \<noteq> [] \<and> s \<noteq> ''.'' \<and> s \<noteq> ''..'' \<and> CHR ''/'' \<notin> set s) cwd"

text \<open>
  A loader known on finitely many texts, for running the script on examples: each pair
  is a YAML text and the value \<^verbatim>\<open>js-yaml\<close> loads it as; any other text is refused.
  Likewise a dumper known on finitely many values; no example dumps any other value,
  prints a value as JSON or converts a value that is not a string to a string or a value
  that is not a number to a number. The registry gives no answer, as it does when no API
  key is entered.
\<close>

definition yaml_table :: "(string \<times> jsval) list \<Rightarrow> string \<Rightarrow> error + jsval" where
  "yaml_table t s = (case map_of t s of Some v \<Rightarrow> Inr v | None \<Rightarrow> Inl YAMLException)"

definition dump_table :: "(jsval \<times> string) list \<Rightarrow> jsval \<Rightarrow> string" where
  "dump_table t v = (case map_of t v of Some s \<Rightarrow> s | None \<Rightarrow> [])"

definition sample_extern :: extern where
  "sample_extern =
     \<lparr>yaml_load = yaml_table
        [(''exclude: true'', Obj (Addr 1) [(''exclude'', Bool True)]),
         (''permission: admin'', Obj (Addr 1) [(''permission'', Str ''admin'')]),
         (''{}'', Obj (Addr 1) []),
         (''Guides'', Str ''Guides''),
         (''- page: intro.mdx'', Arr (Addr 1) [Obj (Addr 2) [(''page'', Str ''intro.mdx'')]]),
         (''oasDefinitions:\<newline>  pets-v1: https://example.com/v1.yaml\<newline>  pets-v2: https://example.com/v2.yaml'',
          Obj (Addr 1)
            [(''oasDefinitions'',
              Obj (Addr 2) [(''pets-v1'', Str ''https://example.com/v1.yaml''),
                            (''pets-v2'', Str ''https://example.com/v2.yaml'')])]),
         (''versions:\<newline>  - id: v1\<newline>    definitionId: pets-v1\<newline>  - id: v2\<newline>    definitionId: pets-v2'',
          Obj (Addr 1)
            [(''versions'',
              Arr (Addr 2)
                [Obj (Addr 3) [(''id'', Str ''v1''), (''definitionId'', Str ''pets-v1'')],
                 Obj (Addr 4) [(''id'', Str ''v2''), (''definitionId'', Str ''pets-v2'')]])])],
      yaml_dump = dump_table
        [(Arr Fresh [Obj Fresh [(''page'', Str ''intro.md'')]], ''- page: intro.md\<newline>'')],
      json_stringify = (\<lambda>v. []),
      to_string = (\<lambda>v. []),
      to_number = (\<lambda>v. Inr NaN),
      fetch_remote = (\<lambda>p. None)\<rparr>"

text \<open>
  A document as a reader sees it: a sequence of pieces, each plain text, an admonition
  block (type, title if any, body), an embed (source) or an inline link (label,
  destination). \<open>legacy\<close> is the text of a piece in the legacy syntax, \<open>opener\<close> the
  opening line of an admonition block.
\<close>

datatype piece =
    Text string
  | Admonition string "string option" string
  | Embed string
  | Link string string

definition opener :: "string \<Rightarrow> string option \<Rightarrow> string" where
  "opener ty title = '':::'' @ ty @ (case title of None \<Rightarrow> [] | Some t \<Rightarrow> '' '' @ t) @ ''\<newline>''"

fun legacy :: "piece \<Rightarrow> string" where
  "legacy (Text t) = t"
| "legacy (Admonition ty title body) = opener ty title @ body @ '':::''"
| "legacy (Embed src) = ''<embed src=\"'' @ src @ ''\" />''"
| "legacy (Link label dest) = ''['' @ label @ '']('' @ dest @ '')''"

text \<open>
  The marker \<open>L\<close> begins nowhere in the text \<open>t\<close>, whatever follows the text: from no
  position of \<open>t\<close> on does the text begin with \<open>L\<close> or end inside a beginning of \<open>L\<close>.
\<close>

definition clear :: "string \<Rightarrow> string \<Rightarrow> bool" where
  "clear L t = list_all (\<lambda>s. \<not> starts_with s L \<and> \<not> starts_with L s) (positions t)"





text \<open>
  What the link rewriter can read a piece as: a link has a label without \<^verbatim>\<open>]\<close> and a
  destination without \<^verbatim>\<open>)\<close>, neither empty; no other piece holds a \<^verbatim>\<open>[\<close>.
\<close>

fun link_ready :: "piece \<Rightarrow> bool" where
  "link_ready (Link label dest) =
     (label \<noteq> [] \<and> CHR '']'' \<notin> set label \<and> dest \<noteq> [] \<and> CHR '')'' \<notin> set dest)"
| "link_ready p = clear ''['' (legacy p)"

text \<open>
  The pieces with every link replaced by what the callback \<open>f\<close> returns for it; the first
  exception ends the rewriting.
\<close>

fun links_rewritten ::
  "(string \<times> string \<times> string \<Rightarrow> error + string) \<Rightarrow> piece list \<Rightarrow> error + string" where
  "links_rewritten f [] = Inr []"
| "links_rewritten f (Link label dest # ps) =
     (case f (''['' @ label @ '']('', dest, '')'') of
        Inl e \<Rightarrow> Inl e
      | Inr r \<Rightarrow> (case links_rewritten f ps of Inl e \<Rightarrow> Inl e | Inr out \<Rightarrow> Inr (r @ out)))"
| "links_rewritten f (p # ps) =
     (case links_rewritten f ps of Inl e \<Rightarrow> Inl e | Inr out \<Rightarrow> Inr (legacy p @ out))"

section \<open>Properties of the structural equality checker\<close>

lemma size_list_member: "x \<in> set xs \<Longrightarrow> f x < size_list f xs"
  by (induction xs) auto

lemma subvalues_self: "v \<in> set (subvalues v)"
  by (cases v) auto

lemma subvalues_elem: "x \<in> set xs \<Longrightarrow> set (subvalues x) \<subseteq> set (subvalues (Arr r xs))"
  by auto

lemma subvalues_field: "(k, v) \<in> set f \<Longrightarrow> set (subvalues v) \<subseteq> set (subvalues (Obj r f))"
  by force

lemma struct_eq_seq_nth:
  "struct_eq_seq xs ys = (length xs = length ys \<and> (\<forall>i<length xs. struct_eq (xs ! i) (ys ! i)))"
proof (induction xs arbitrary: ys)
  case Nil
  then show ?case by (cases ys) auto
next
  case (Cons x xs)
  show ?case
  proof (cases ys)
    case Nil
    then show ?thesis by simp
  next
    case (Cons y ys')
    then show ?thesis
      using Cons.IH[of ys'] by (auto simp: nth_Cons split: nat.splits)
  qed
qed

lemma dequal_arr_nth:
  "n \<le> length xs \<Longrightarrow> n \<le> length ys \<Longrightarrow>
   dequal_arr xs ys n = (\<forall>i<n. dequal (xs ! i) (ys ! i))"
  by (induction n) (auto simp: js_nth_def less_Suc_eq)

lemma struct_eq_fields_iff:
  "struct_eq_fields f g = (\<forall>(k, v)\<in>set f. \<exists>w. map_of g k = Some w \<and> struct_eq v w)"
  by (induction f) (auto split: option.splits)

lemma dequal_obj_iff:
  "dequal_obj f g = (\<forall>(k, v)\<in>set f. \<exists>w. map_of g k = Some w \<and> dequal v w)"
  by (induction f) (auto split: option.splits)

lemma struct_eq_refl: "distinct_keys a \<Longrightarrow> struct_eq a a"
proof (induction a rule: measure_induct_rule[of size])
  case (less a)
  show ?case
  proof (cases a)
    case (Arr r xs)
    have "struct_eq (xs ! i) (xs ! i)" if "i < length xs" for i
    proof -
      have m: "xs ! i \<in> set xs" using that by simp
      then have "size (xs ! i) < size a"
        using Arr size_list_member[of "xs ! i" xs size] by simp
      moreover have "distinct_keys (xs ! i)"
        using less.prems Arr m by (simp add: list_all_iff)
      ultimately show ?thesis by (rule less.IH)
    qed
    then show ?thesis using Arr by (simp add: struct_eq_seq_nth)
  next
    case (Obj r f)
    have "\<exists>w. map_of f k = Some w \<and> struct_eq v w" if "(k, v) \<in> set f" for k v
    proof -
      have "map_of f k = Some v" using that less.prems Obj by simp
      moreover have "size v < size a"
        using Obj that size_list_member[of "(k, v)" f "size_prod (\<lambda>x. 0) size"] by simp
      moreover have "distinct_keys v"
        using less.prems Obj that by (auto simp: list_all_iff)
      ultimately show ?thesis using less.IH by blast
    qed
    then show ?thesis using Obj by (auto simp: struct_eq_fields_iff)
  qed auto
qed

lemma dequal_prim:
  "\<not> (\<exists>r xs. foo = Arr r xs) \<Longrightarrow> \<not> (\<exists>r f. foo = Obj r f) \<Longrightarrow>
   dequal foo bar = (strict_eq foo bar \<or> is_nan foo \<and> is_nan bar)"
  by (cases foo; cases bar) (auto simp: dequal.simps(1))

lemma struct_eq_prim:
  "\<not> (\<exists>r xs. foo = Arr r xs) \<Longrightarrow> \<not> (\<exists>r f. foo = Obj r f) \<Longrightarrow>
   struct_eq foo bar = (strict_eq foo bar \<or> is_nan foo \<and> is_nan bar)"
  by (cases foo; cases bar) auto

lemma dequal_arr_other:
  "\<not> (\<exists>r ys. bar = Arr r ys) \<Longrightarrow> dequal (Arr r xs) bar = False"
  by (cases bar) (auto simp: dequal.simps(1) split: option.splits)

lemma dequal_obj_other:
  "\<not> (\<exists>r g. bar = Obj r g) \<Longrightarrow> dequal (Obj r f) bar = False"
  by (cases bar) (auto simp: dequal.simps(1) split: option.splits)

lemma dequal_arr_arr:
  "\<not> same_ref r r' \<Longrightarrow>
   dequal (Arr r xs) (Arr r' ys) =
     (length xs = length ys \<and> (\<forall>i<length xs. dequal (xs ! i) (ys ! i)))"
  by (auto simp: dequal.simps(1) dequal_arr_nth)

lemma dequal_obj_obj:
  "\<not> same_ref r r' \<Longrightarrow>
   dequal (Obj r f) (Obj r' g) =
     (ctor_eq (constructor_of (Obj r f)) (constructor_of (Obj r' g)) \<and>
      dequal_obj f g \<and> length g = length f)"
  by (auto simp: dequal.simps(1))

lemma keys_length_eq:
  assumes "distinct (map fst f)" "distinct (map fst g)" "set (map fst f) \<subseteq> set (map fst g)"
  shows "(length g = length f) = (set (map fst f) = set (map fst g))"
proof -
  have cf: "card (set (map fst f)) = length f" using assms(1) distinct_card by fastforce
  have cg: "card (set (map fst g)) = length g" using assms(2) distinct_card by fastforce
  show ?thesis
  proof
    assume "length g = length f"
    then have "card (set (map fst f)) = card (set (map fst g))" using cf cg by simp
    then show "set (map fst f) = set (map fst g)"
      using assms(3) by (simp add: card_subset_eq)
  next
    assume "set (map fst f) = set (map fst g)"
    then show "length g = length f" using cf cg by simp
  qed
qed

lemma strict_prim_struct_eq:
  "strict_prim v \<Longrightarrow> strict_prim w \<Longrightarrow> struct_eq v w = strict_eq v w"
  by (cases v; cases w) auto

lemma dequal_struct_eq_aux:
  assumes "distinct_keys foo" "distinct_keys bar" "ctor_plain foo" "ctor_plain bar"
    and "\<forall>a\<in>set (subvalues foo). \<forall>b\<in>set (subvalues bar). strict_eq a b \<longrightarrow> a = b"
  shows "dequal foo bar = struct_eq foo bar"
  using assms
proof (induction foo arbitrary: bar rule: measure_induct_rule[of size])
  case (less foo)
  note al = less.prems(5)
  have same: "foo = bar" if "strict_eq foo bar"
    using al that subvalues_self by blast
  show ?case
  proof (cases foo)
    case (Arr r xs)
    show ?thesis
    proof (cases bar)
      case bar: (Arr r' ys)
      show ?thesis
      proof (cases "same_ref r r'")
        case True
        then have "foo = bar" using same Arr bar by simp
        then show ?thesis
          using struct_eq_refl[OF less.prems(1)] True Arr bar by (simp add: dequal.simps(1))
      next
        case False
        have "dequal (xs ! i) (ys ! i) = struct_eq (xs ! i) (ys ! i)"
          if "i < length xs" "i < length ys" for i
        proof -
          have mx: "xs ! i \<in> set xs" and my: "ys ! i \<in> set ys" using that by simp_all
          have "size (xs ! i) < size foo"
            using Arr size_list_member[OF mx, of size] by simp
          moreover have "distinct_keys (xs ! i)" "ctor_plain (xs ! i)"
            using less.prems(1,3) Arr mx by (simp_all add: list_all_iff)
          moreover have "distinct_keys (ys ! i)" "ctor_plain (ys ! i)"
            using less.prems(2,4) bar my by (simp_all add: list_all_iff)
          moreover have "\<forall>a\<in>set (subvalues (xs ! i)). \<forall>b\<in>set (subvalues (ys ! i)).
              strict_eq a b \<longrightarrow> a = b"
            using al subvalues_elem[OF mx, of r] subvalues_elem[OF my, of r'] Arr bar by blast
          ultimately show ?thesis using less.IH[of "xs ! i" "ys ! i"] by blast
        qed
        then show ?thesis
          using Arr bar False by (auto simp: dequal_arr_arr struct_eq_seq_nth)
      qed
    qed (simp_all add: Arr dequal_arr_other)
  next
    case (Obj r f)
    show ?thesis
    proof (cases bar)
      case bar: (Obj r' g)
      have df: "distinct (map fst f)" and dg: "distinct (map fst g)"
        using less.prems(1,2) Obj bar by simp_all
      show ?thesis
      proof (cases "same_ref r r'")
        case True
        then have "foo = bar" using same Obj bar by simp
        then show ?thesis
          using struct_eq_refl[OF less.prems(1)] True Obj bar by (simp add: dequal.simps(1))
      next
        case False
        have vals: "dequal v w = struct_eq v w"
          if "(k, v) \<in> set f" "map_of g k = Some w" for k v w
        proof -
          have mw: "(k, w) \<in> set g" using that(2) by (rule map_of_SomeD)
          have "size v < size foo"
            using Obj size_list_member[OF that(1), of "size_prod (\<lambda>x. 0) size"] by simp
          moreover have "distinct_keys v" "ctor_plain v"
            using less.prems(1,3) Obj that(1) by (auto simp: list_all_iff)
          moreover have "distinct_keys w" "ctor_plain w"
            using less.prems(2,4) bar mw by (auto simp: list_all_iff)
          moreover have "\<forall>a\<in>set (subvalues v). \<forall>b\<in>set (subvalues w). strict_eq a b \<longrightarrow> a = b"
            using al subvalues_field[OF that(1), of r] subvalues_field[OF mw, of r'] Obj bar
            by blast
          ultimately show ?thesis using less.IH[of v w] by blast
        qed
        have fields: "dequal_obj f g = struct_eq_fields f g"
          unfolding dequal_obj_iff struct_eq_fields_iff using vals by fastforce
        have sub: "set (map fst f) \<subseteq> set (map fst g)" if "struct_eq_fields f g"
          using that unfolding struct_eq_fields_iff by (force dest: map_of_SomeD)
        have len: "(length g = length f) = (set (map fst f) = set (map fst g))"
          if "struct_eq_fields f g"
          using keys_length_eq[OF df dg sub[OF that]] .
        have ctor: "ctor_eq (constructor_of (Obj r f)) (constructor_of (Obj r' g))"
          if sf: "struct_eq_fields f g" and ks: "set (map fst f) = set (map fst g)"
        proof (cases "map_of f ''constructor''")
          case None
          then have "''constructor'' \<notin> set (map fst g)"
            using ks by (simp add: map_of_eq_None_iff)
          then have "map_of g ''constructor'' = None" by (simp add: map_of_eq_None_iff)
          then show ?thesis using None by simp
        next
          case (Some v)
          then have mv: "(''constructor'', v) \<in> set f" by (rule map_of_SomeD)
          then obtain w where w: "map_of g ''constructor'' = Some w" "struct_eq v w"
            using sf unfolding struct_eq_fields_iff by fastforce
          have "strict_prim v" using less.prems(3) Obj Some by simp
          moreover have "strict_prim w" using less.prems(4) bar w(1) by simp
          ultimately have "strict_eq v w" using w(2) strict_prim_struct_eq by blast
          then show ?thesis using Some w(1) by simp
        qed
        show ?thesis
          using Obj bar False fields len ctor by (auto simp: dequal_obj_obj)
      qed
    qed (simp_all add: Obj dequal_obj_other)
  qed (simp_all add: dequal_prim struct_eq_prim)
qed

text \<open>
  C9, as stated, fails: two mappings with the one key \<^verbatim>\<open>constructor\<close>, each bound to an
  empty sequence, have the same key set and pairwise equal values, yet the checker
  returns false. The own property shadows the inherited constructor, and the checker
  compares the two constructors with \<^verbatim>\<open>===\<close>: two distinct empty arrays.
\<close>

theorem dequal_constructor_key_counterexample:
  "struct_eq (Obj (Addr 1) [(''constructor'', Arr (Addr 2) [])])
             (Obj (Addr 3) [(''constructor'', Arr (Addr 4) [])])
   \<and> \<not> dequal (Obj (Addr 1) [(''constructor'', Arr (Addr 2) [])])
               (Obj (Addr 3) [(''constructor'', Arr (Addr 4) [])])"
  by (simp add: dequal.simps(1))

text \<open>
  C9, amended: on values in which no mapping has an own key \<^verbatim>\<open>constructor\<close> bound to
  a sequence, a mapping or not-a-number, the checker returns true exactly when the two
  values are structurally equal: sequences of the same length with pairwise equal elements
  in order, mappings with the same key set and pairwise equal values whatever the key
  order, primitives that are \<^verbatim>\<open>===\<close>-equal or both not-a-number.
\<close>

theorem dequal_structural:
  assumes "distinct_keys foo" and "distinct_keys bar"
    and "alias_free foo bar"
    and "ctor_plain foo" and "ctor_plain bar"
  shows "dequal foo bar = struct_eq foo bar"
proof -
  have "\<forall>a\<in>set (subvalues foo). \<forall>b\<in>set (subvalues bar). strict_eq a b \<longrightarrow> a = b"
    using assms(3) by (simp add: alias_free_def list_all_iff)
  then show ?thesis
    using assms(1,2,4,5) by (rule dequal_struct_eq_aux[rotated 4])
qed

theorem dequal_structural_witness:
  "distinct_keys (Obj (Addr 1) [(''a'', Num NaN), (''b'', Arr (Addr 2) [Null, Str ''x''])])
   \<and> distinct_keys (Obj (Addr 3) [(''b'', Arr (Addr 4) [Null, Str ''x'']), (''a'', Num NaN)])
   \<and> alias_free (Obj (Addr 1) [(''a'', Num NaN), (''b'', Arr (Addr 2) [Null, Str ''x''])])
                (Obj (Addr 3) [(''b'', Arr (Addr 4) [Null, Str ''x'']), (''a'', Num NaN)])
   \<and> ctor_plain (Obj (Addr 1) [(''a'', Num NaN), (''b'', Arr (Addr 2) [Null, Str ''x''])])
   \<and> ctor_plain (Obj (Addr 3) [(''b'', Arr (Addr 4) [Null, Str ''x'']), (''a'', Num NaN)])
   \<and> dequal (Obj (Addr 1) [(''a'', Num NaN), (''b'', Arr (Addr 2) [Null, Str ''x''])])
            (Obj (Addr 3) [(''b'', Arr (Addr 4) [Null, Str ''x'']), (''a'', Num NaN)])"
  using dequal_structural
    [of "Obj (Addr 1) [(''a'', Num NaN), (''b'', Arr (Addr 2) [Null, Str ''x''])]"
        "Obj (Addr 3) [(''b'', Arr (Addr 4) [Null, Str ''x'']), (''a'', Num NaN)]"]
  by (simp add: alias_free_def insert_commute)

section \<open>Properties of texts and of global replacement\<close>

lemma starts_with_iff: "starts_with s p = (\<exists>r. s = p @ r)"
  by (induction s p rule: starts_with.induct) auto

lemma ends_with_iff: "ends_with s p = (\<exists>a. s = a @ p)"
proof -
  have "ends_with s p = (\<exists>r. rev s = rev p @ r)" by (simp add: ends_with_def starts_with_iff)
  also have "\<dots> = (\<exists>a. s = a @ p)"
  proof
    assume "\<exists>r. rev s = rev p @ r"
    then obtain r where "rev s = rev p @ r" by blast
    then have "s = rev r @ p" by (metis rev_append rev_rev_ident)
    then show "\<exists>a. s = a @ p" by blast
  next
    assume "\<exists>a. s = a @ p"
    then show "\<exists>r. rev s = rev p @ r" by auto
  qed
  finally show ?thesis .
qed

lemma index_of_prefix: "starts_with s p \<Longrightarrow> index_of p s = Some 0"
  by (cases s; cases p) auto

lemma index_of_occurs: "index_of p (a @ p @ b) \<noteq> None"
proof (induction a)
  case Nil
  have "starts_with (p @ b) p" by (simp add: starts_with_iff)
  then show ?case by (simp add: index_of_prefix)
next
  case (Cons c cs)
  then show ?case by auto
qed

lemma starts_with_append:
  "starts_with (a @ r) L \<Longrightarrow> starts_with a L \<or> starts_with L a"
  by (auto simp: starts_with_iff append_eq_append_conv2)

lemma positions_drop_mem: "i < length t \<Longrightarrow> drop i t \<in> set (positions t)"
proof (induction t arbitrary: i)
  case Nil
  then show ?case by simp
next
  case (Cons c cs)
  then show ?case by (cases i) auto
qed

lemma clear_no_start:
  assumes "clear L t" and "i < length t"
  shows "\<not> starts_with (drop i (t @ r)) L"
proof
  assume s: "starts_with (drop i (t @ r)) L"
  have "drop i (t @ r) = drop i t @ r" using assms(2) by simp
  with s have "starts_with (drop i t) L \<or> starts_with L (drop i t)"
    using starts_with_append by metis
  moreover have "drop i t \<in> set (positions t)" using assms(2) by (rule positions_drop_mem)
  ultimately show False using assms(1) by (auto simp: clear_def list_all_iff)
qed

lemma positions_append:
  "s \<in> set (positions (a @ b)) \<Longrightarrow> (\<exists>s'\<in>set (positions a). s = s' @ b) \<or> s \<in> set (positions b)"
  by (induction a) auto

lemma clear_append: "clear L a \<Longrightarrow> clear L b \<Longrightarrow> clear L (a @ b)"
proof -
  assume a: "clear L a" and b: "clear L b"
  have "\<not> starts_with s L \<and> \<not> starts_with L s" if "s \<in> set (positions (a @ b))" for s
  proof -
    from positions_append[OF that] show ?thesis
    proof
      assume "\<exists>s'\<in>set (positions a). s = s' @ b"
      then obtain s' where s': "s' \<in> set (positions a)" "s = s' @ b" by blast
      then have n: "\<not> starts_with s' L" "\<not> starts_with L s'"
        using a by (auto simp: clear_def list_all_iff)
      have "\<not> starts_with (s' @ b) L" using n starts_with_append by blast
      moreover have "\<not> starts_with L (s' @ b)"
        using n(2) by (auto simp: starts_with_iff)
      ultimately show ?thesis using s'(2) by simp
    next
      assume "s \<in> set (positions b)"
      then show ?thesis using b by (auto simp: clear_def list_all_iff)
    qed
  qed
  then show ?thesis by (auto simp: clear_def list_all_iff)
qed


lemma replace_all_state_skip:
  assumes "\<forall>i<length a. m (drop i (a @ b)) = None"
  shows "replace_all_state m f (a @ b) st =
         (case replace_all_state m f b st of (out, st') \<Rightarrow> (a @ out, st'))"
  using assms
proof (induction a)
  case Nil
  show ?case by simp
next
  case (Cons c cs)
  have 0: "m ((c # cs) @ b) = None" using Cons.prems by (metis drop0 length_greater_0_conv list.distinct(1))
  have "\<forall>i<length cs. m (drop i (cs @ b)) = None"
  proof (intro allI impI)
    fix i assume "i < length cs"
    then have "m (drop (Suc i) ((c # cs) @ b)) = None" using Cons.prems by (metis Suc_less_eq length_Cons)
    then show "m (drop i (cs @ b)) = None" by simp
  qed
  then have "replace_all_state m f (cs @ b) st =
      (case replace_all_state m f b st of (out, st') \<Rightarrow> (cs @ out, st'))" by (rule Cons.IH)
  then show ?case using 0 by (subst replace_all_state.simps) (simp split: prod.splits)
qed

lemma replace_all_err_skip:
  assumes "\<forall>i<length a. m (drop i (a @ b)) = None"
  shows "replace_all_err m f (a @ b) =
         (case replace_all_err m f b of Inl e \<Rightarrow> Inl e | Inr out \<Rightarrow> Inr (a @ out))"
  using assms
proof (induction a)
  case Nil
  show ?case by (simp split: sum.splits)
next
  case (Cons c cs)
  have 0: "m ((c # cs) @ b) = None" using Cons.prems by (metis drop0 length_greater_0_conv list.distinct(1))
  have "\<forall>i<length cs. m (drop i (cs @ b)) = None"
  proof (intro allI impI)
    fix i assume "i < length cs"
    then have "m (drop (Suc i) ((c # cs) @ b)) = None" using Cons.prems by (metis Suc_less_eq length_Cons)
    then show "m (drop i (cs @ b)) = None" by simp
  qed
  then have "replace_all_err m f (cs @ b) =
      (case replace_all_err m f b of Inl e \<Rightarrow> Inl e | Inr out \<Rightarrow> Inr (cs @ out))" by (rule Cons.IH)
  then show ?case using 0 by (subst replace_all_err.simps) (simp split: sum.splits)
qed


lemma replace_all_state_hit:
  assumes "m (a @ b) = Some (g, length a)" and "a \<noteq> []"
  shows "replace_all_state m f (a @ b) st =
         (case f g st of (r, st1) \<Rightarrow>
            (case replace_all_state m f b st1 of (out, st') \<Rightarrow> (r @ out, st')))"
  using assms by (subst replace_all_state.simps) (simp split: prod.splits)

lemma replace_all_err_hit:
  assumes "m (a @ b) = Some (g, length a)" and "a \<noteq> []"
  shows "replace_all_err m f (a @ b) =
         (case f g of
            Inl e \<Rightarrow> Inl e
          | Inr r \<Rightarrow> (case replace_all_err m f b of Inl e \<Rightarrow> Inl e | Inr out \<Rightarrow> Inr (r @ out)))"
  using assms by (subst replace_all_err.simps) (simp split: sum.splits)

lemma takeWhile_upto:
  "\<forall>x\<in>set xs. P x \<Longrightarrow> \<not> P y \<Longrightarrow> takeWhile P (xs @ y # ys) = xs"
  by (induction xs) auto

lemma dropWhile_upto:
  "\<forall>x\<in>set xs. P x \<Longrightarrow> \<not> P y \<Longrightarrow> dropWhile P (xs @ y # ys) = y # ys"
  by (induction xs) auto




section \<open>Properties of the markup transformer, the frontmatter processor and the link rewriter\<close>

lemmas eval_defs =
  replace_all.simps replace_all_state.simps replace_all_err.simps
  admonition_match_def admonition_text_def admonition_replacement_def
  embed_match_def fence_match_def fence_body_def fence_replacement_def
  link_match_def frontmatter_match_def frontmatter_close_def
  is_word_def is_space_def is_line_terminator_def ends_with_def trim_def
  transformMarkup_def migrateMarkdownContent_def processFrontMatter_def
  spliceFrontMatter_def rewriteLinks_def replace_tabs_def own_field_def
  prop_assign_def prop_delete_def slice_from_def
  sample_extern_def yaml_table_def dump_table_def initial_state_def Let_def




















lemma map_of_prop_set: "k' \<noteq> k \<Longrightarrow> map_of (prop_set k v ps) k' = map_of ps k'"
  by (induction ps) auto

lemma map_of_prop_assign: "k' \<noteq> k \<Longrightarrow> map_of (prop_assign k v ps) k' = map_of ps k'"
  by (simp add: prop_assign_def map_of_prop_set)

lemma map_of_prop_delete: "k' \<noteq> k \<Longrightarrow> map_of (prop_delete k ps) k' = map_of ps k'"
  by (induction ps) (auto simp: prop_delete_def)

lemma exclude_aux:
  assumes ok: "processFrontMatter ext content filePath st = Inr (r, st')"
    and m: "frontmatter_match content = Some (block, n)"
    and y: "yaml_load ext (replace_tabs block) = Inr (Obj a f)"
    and ex: "map_of f ''exclude'' = Some v"
  shows "ignore st' = (if truthy v then ignore st @ [filePath] else ignore st)
       \<and> get_field (frontmatter r) ''exclude'' = Inr v
       \<and> changed r = (truthy (own_field f ''permission'') \<or> truthy (own_field f ''redirectFrom''))"
proof -
  define p where "p = own_field f ''permission''"
  define f1 where "f1 = (if truthy p then prop_delete ''permission'' f else f)"
  define rf where "rf = own_field f ''redirectFrom''"
  have rf1: "own_field f1 ''redirectFrom'' = rf"
    by (simp add: f1_def rf_def own_field_def map_of_prop_delete)
  have ex1: "map_of f1 ''exclude'' = Some v"
    by (simp add: f1_def ex map_of_prop_delete)
  show ?thesis
  proof (cases "truthy rf")
    case False
    then show ?thesis
      using ok m y ex1 rf1
      by (auto simp: processFrontMatter_def Let_def own_field_def p_def f1_def rf_def
               split: if_splits option.splits)
  next
    case True
    show ?thesis
    proof (cases rf)
      case (Arr b xs)
      have "map_of (prop_delete ''redirectFrom''
              (prop_assign ''redirects'' (redirects_of ext xs) f1)) ''exclude'' = Some v"
        by (simp add: map_of_prop_delete map_of_prop_assign ex1)
      then show ?thesis
        using ok m y rf1 True Arr
        by (auto simp: processFrontMatter_def Let_def own_field_def p_def f1_def rf_def
                 split: if_splits option.splits)
    qed (use ok m y rf1 True in
          \<open>auto simp: processFrontMatter_def Let_def own_field_def p_def f1_def rf_def
                split: if_splits option.splits\<close>)
  qed
qed

text \<open>
  C8, as stated, fails: a document whose frontmatter is \<^verbatim>\<open>exclude: true\<close> has its path
  appended to the ignore list and keeps the key, but the processor reports
  \<open>changed = False\<close>. Nothing in the frontmatter needs writing back.
\<close>

theorem exclude_not_changed_counterexample:
  "processFrontMatter sample_extern ''---\<newline>exclude: true\<newline>---\<newline>Body'' ''./a.md''
      initial_state =
     Inr (\<lparr>frontmatter = Obj (Addr 1) [(''exclude'', Bool True)], changed = False, len = Some 22\<rparr>,
          initial_state\<lparr>ignore := [''_*'', ''./a.md'']\<rparr>)"
  by (simp add: eval_defs)

text \<open>
  C8, amended: for every document whose frontmatter block is a mapping with a truthy
  \<^verbatim>\<open>exclude\<close> value and is processed without error, the processor appends the document's
  path to the ignore list and leaves the \<^verbatim>\<open>exclude\<close> key in the returned mapping with
  its value; the result is "changed" exactly when the mapping has a truthy
  \<^verbatim>\<open>permission\<close> or a truthy \<^verbatim>\<open>redirectFrom\<close>, the \<^verbatim>\<open>exclude\<close> key having no part in it.
\<close>

theorem exclude_rewrite:
  assumes "processFrontMatter ext content filePath st = Inr (r, st')"
    and "frontmatter_match content = Some (block, n)"
    and "yaml_load ext (replace_tabs block) = Inr (Obj a f)"
    and "map_of f ''exclude'' = Some v" and "truthy v"
  shows "ignore st' = ignore st @ [filePath]
       \<and> get_field (frontmatter r) ''exclude'' = Inr v
       \<and> changed r = (truthy (own_field f ''permission'') \<or> truthy (own_field f ''redirectFrom''))"
  using exclude_aux[OF assms(1-4)] assms(5) by simp

theorem exclude_rewrite_witness:
  "processFrontMatter sample_extern ''---\<newline>exclude: true\<newline>---\<newline>Body'' ''./a.md''
      initial_state =
     Inr (\<lparr>frontmatter = Obj (Addr 1) [(''exclude'', Bool True)], changed = False, len = Some 22\<rparr>,
          initial_state\<lparr>ignore := [''_*'', ''./a.md'']\<rparr>)
   \<and> frontmatter_match ''---\<newline>exclude: true\<newline>---\<newline>Body'' = Some (''exclude: true'', 22)
   \<and> yaml_load sample_extern (replace_tabs ''exclude: true'') = Inr (Obj (Addr 1) [(''exclude'', Bool True)])
   \<and> map_of [(''exclude'', Bool True)] ''exclude'' = Some (Bool True) \<and> truthy (Bool True)
   \<and> ignore (initial_state\<lparr>ignore := [''_*'', ''./a.md'']\<rparr>) = ignore initial_state @ [''./a.md'']
   \<and> get_field (Obj (Addr 1) [(''exclude'', Bool True)]) ''exclude'' = Inr (Bool True)"
proof -
  have h1: "processFrontMatter sample_extern ''---\<newline>exclude: true\<newline>---\<newline>Body'' ''./a.md''
      initial_state =
     Inr (\<lparr>frontmatter = Obj (Addr 1) [(''exclude'', Bool True)], changed = False, len = Some 22\<rparr>,
          initial_state\<lparr>ignore := [''_*'', ''./a.md'']\<rparr>)"
    by (simp add: eval_defs)
  have h2: "frontmatter_match ''---\<newline>exclude: true\<newline>---\<newline>Body'' = Some (''exclude: true'', 22)"
    by (simp add: eval_defs)
  have h3: "yaml_load sample_extern (replace_tabs ''exclude: true'') =
      Inr (Obj (Addr 1) [(''exclude'', Bool True)])"
    by (simp add: eval_defs)
  have h4: "map_of [(''exclude'', Bool True)] ''exclude'' = Some (Bool True)" by simp
  have h5: "truthy (Bool True)" by simp
  from exclude_rewrite[OF h1 h2 h3 h4 h5] show ?thesis using h1 h2 h3 by simp
qed



lemma positions_drop: "set (positions (drop n s)) \<subseteq> set (positions s)"
proof (induction s arbitrary: n)
  case Nil
  show ?case by simp
next
  case (Cons c cs)
  show ?case
  proof (cases n)
    case 0
    then show ?thesis by simp
  next
    case (Suc k)
    then show ?thesis using Cons.IH[of k] by auto
  qed
qed

lemma replace_all_err_kept:
  assumes "\<forall>t\<in>set (positions s). case m t of None \<Rightarrow> True | Some (g, n) \<Rightarrow> f g = Inr (take n t)"
  shows "replace_all_err m f s = Inr s"
  using assms
proof (induction s rule: length_induct)
  case (1 s)
  show ?case
  proof (cases s)
    case Nil
    then show ?thesis by (simp add: replace_all_err.simps)
  next
    case (Cons c cs)
    have rest: "replace_all_err m f cs = Inr cs"
    proof -
      have "\<forall>t\<in>set (positions cs). case m t of None \<Rightarrow> True | Some (g, n) \<Rightarrow> f g = Inr (take n t)"
        using "1.prems" Cons by simp
      then show ?thesis using "1.IH" Cons by simp
    qed
    show ?thesis
    proof (cases "m s")
      case None
      then show ?thesis using Cons rest by (subst replace_all_err.simps) simp
    next
      case (Some a)
      obtain g n where a: "a = (g, n)" by (cases a)
      have fg: "f g = Inr (take n s)" using "1.prems" Cons Some a by auto
      show ?thesis
      proof (cases "n = 0")
        case True
        then show ?thesis using Cons rest Some a fg by (subst replace_all_err.simps) simp
      next
        case False
        have "\<forall>t\<in>set (positions (drop n s)).
                case m t of None \<Rightarrow> True | Some (g, n) \<Rightarrow> f g = Inr (take n t)"
          using "1.prems" positions_drop[of n s] by blast
        moreover have "length (drop n s) < length s" using False Cons by simp
        ultimately have "replace_all_err m f (drop n s) = Inr (drop n s)" using "1.IH" by blast
        then show ?thesis using Cons Some a fg False by (subst replace_all_err.simps) simp
      qed
    qed
  qed
qed

lemma rewriteLinks_kept:
  "links_kept cwd reg filePath s \<Longrightarrow> rewriteLinks cwd reg filePath s = Inr s"
  unfolding rewriteLinks_def links_kept_def list_all_iff by (rule replace_all_err_kept)


lemma processFrontMatter_changed:
  assumes "processFrontMatter ext c filePath st = Inr (r, st')" and "changed r"
  shows "\<exists>block n. frontmatter_match c = Some (block, n) \<and> len r = Some n"
  using assms
  by (auto simp: processFrontMatter_def Let_def split: option.splits sum.splits if_splits)

text \<open>
  C7, as stated, fails: the frontmatter \<^verbatim>\<open>{}\<close> is processed to an empty mapping, and the
  block stays in the document. The block is spliced out only when the processor reports
  a change.
\<close>

theorem empty_frontmatter_kept_counterexample:
  "processFrontMatter sample_extern ''---\<newline>{}\<newline>---\<newline>Body'' ''./a.md'' initial_state =
     Inr (\<lparr>frontmatter = Obj (Addr 1) [], changed = False, len = Some 11\<rparr>, initial_state)
   \<and> migrateMarkdownContent sample_extern [''site''] ''./a.md'' ''---\<newline>{}\<newline>---\<newline>Body''
       initial_state =
     Inr (''---\<newline>{}\<newline>---\<newline>Body'', initial_state)"
  by (simp add: eval_defs)

text \<open>
  C7, amended: for every document whose frontmatter processing reports a change and
  returns an empty mapping (a document whose only frontmatter key is a truthy
  \<^verbatim>\<open>permission\<close>, for example), the frontmatter block is spliced out: the text goes on
  with what followed the block, with no empty delimiter pair. That text, as the markup
  rewrites left it, then passes through the link rewriter, and is the final document
  verbatim when the link rewriter keeps every link of it.
\<close>

theorem frontmatter_collapse:
  assumes "transformMarkup cwd filePath content (partialFolders st) = (c3, folders)"
    and "processFrontMatter ext c3 filePath (st\<lparr>partialFolders := folders\<rparr>) = Inr (r, st2)"
    and "changed r" and "own_key_count (frontmatter r) = 0"
  shows "\<exists>block n. frontmatter_match c3 = Some (block, n)
           \<and> spliceFrontMatter ext c3 r = drop n c3
           \<and> migrateMarkdownContent ext cwd filePath content st =
               (case rewriteLinks cwd (renamedFiles st2) filePath (drop n c3) of
                  Inl e \<Rightarrow> Inl e | Inr c5 \<Rightarrow> Inr (c5, st2))
           \<and> (links_kept cwd (renamedFiles st2) filePath (drop n c3) \<longrightarrow>
                migrateMarkdownContent ext cwd filePath content st = Inr (drop n c3, st2))"
proof -
  from processFrontMatter_changed[OF assms(2,3)] obtain block n
    where m: "frontmatter_match c3 = Some (block, n)" and l: "len r = Some n" by blast
  have sp: "spliceFrontMatter ext c3 r = drop n c3"
    using assms(3,4) l by (simp add: spliceFrontMatter_def slice_from_def)
  have mm: "migrateMarkdownContent ext cwd filePath content st =
               (case rewriteLinks cwd (renamedFiles st2) filePath (drop n c3) of
                  Inl e \<Rightarrow> Inl e | Inr c5 \<Rightarrow> Inr (c5, st2))"
    using assms(1,2) sp by (simp add: migrateMarkdownContent_def)
  show ?thesis using m sp mm rewriteLinks_kept by fastforce
qed

theorem frontmatter_collapse_witness:
  "transformMarkup [''site''] ''./a.md'' ''---\<newline>permission: admin\<newline>---\<newline>\<newline>Body''
      (partialFolders initial_state) =
     (''---\<newline>permission: admin\<newline>---\<newline>\<newline>Body'', [])
   \<and> processFrontMatter sample_extern ''---\<newline>permission: admin\<newline>---\<newline>\<newline>Body'' ''./a.md''
       (initial_state\<lparr>partialFolders := []\<rparr>) =
     Inr (\<lparr>frontmatter = Obj (Addr 1) [], changed = True, len = Some 27\<rparr>,
          initial_state\<lparr>fileRbacPermissions := [(''./a.md'', Str ''admin'')]\<rparr>)
   \<and> links_kept [''site''] [] ''./a.md'' ''Body''
   \<and> migrateMarkdownContent sample_extern [''site''] ''./a.md''
       ''---\<newline>permission: admin\<newline>---\<newline>\<newline>Body'' initial_state =
     Inr (''Body'', initial_state\<lparr>fileRbacPermissions := [(''./a.md'', Str ''admin'')]\<rparr>)"
proof -
  have h1: "transformMarkup [''site''] ''./a.md'' ''---\<newline>permission: admin\<newline>---\<newline>\<newline>Body''
      (partialFolders initial_state) =
     (''---\<newline>permission: admin\<newline>---\<newline>\<newline>Body'', [])"
    by (simp add: eval_defs)
  have h2: "processFrontMatter sample_extern ''---\<newline>permission: admin\<newline>---\<newline>\<newline>Body'' ''./a.md''
       (initial_state\<lparr>partialFolders := []\<rparr>) =
     Inr (\<lparr>frontmatter = Obj (Addr 1) [], changed = True, len = Some 27\<rparr>,
          initial_state\<lparr>fileRbacPermissions := [(''./a.md'', Str ''admin'')]\<rparr>)"
    by (simp add: eval_defs)
  have h3: "changed \<lparr>frontmatter = Obj (Addr 1) [], changed = True, len = Some 27\<rparr>" by simp
  have h4: "own_key_count (frontmatter \<lparr>frontmatter = Obj (Addr 1) [], changed = True, len = Some 27\<rparr>) = 0"
    by simp
  have m: "frontmatter_match ''---\<newline>permission: admin\<newline>---\<newline>\<newline>Body'' = Some (''permission: admin'', 27)"
    by (simp add: eval_defs)
  have k: "links_kept [''site''] [] ''./a.md'' ''Body''"
    by (simp add: links_kept_def link_match_def)
  from frontmatter_collapse[OF h1 h2 h3 h4] obtain block n where
    fm: "frontmatter_match ''---\<newline>permission: admin\<newline>---\<newline>\<newline>Body'' = Some (block, n)"
    and kept: "links_kept [''site'']
        (renamedFiles (initial_state\<lparr>fileRbacPermissions := [(''./a.md'', Str ''admin'')]\<rparr>))
        ''./a.md'' (drop n ''---\<newline>permission: admin\<newline>---\<newline>\<newline>Body'') \<longrightarrow>
      migrateMarkdownContent sample_extern [''site''] ''./a.md''
        ''---\<newline>permission: admin\<newline>---\<newline>\<newline>Body'' initial_state =
      Inr (drop n ''---\<newline>permission: admin\<newline>---\<newline>\<newline>Body'',
           initial_state\<lparr>fileRbacPermissions := [(''./a.md'', Str ''admin'')]\<rparr>)"
    by blast
  from fm m have n: "n = 27" by simp
  have "migrateMarkdownContent sample_extern [''site''] ''./a.md''
       ''---\<newline>permission: admin\<newline>---\<newline>\<newline>Body'' initial_state =
     Inr (''Body'', initial_state\<lparr>fileRbacPermissions := [(''./a.md'', Str ''admin'')]\<rparr>)"
    using kept k unfolding n by (simp add: initial_state_def)
  then show ?thesis using h1 h2 k by simp
qed



lemmas path_eval_defs =
  path_relative_def path_resolve_def resolve_segments_def normalize_segments_def
  normalize_step_def path_dirname_def link_callback_def registry_get_def
  object_prototype_members_def split_on_def


section \<open>Properties of the path functions and the link rewriter\<close>

lemma foldl_normalize_valid:
  "valid_cwd segs \<Longrightarrow> foldl (normalize_step a) stack segs = rev segs @ stack"
  by (induction segs arbitrary: stack) (auto simp: valid_cwd_def normalize_step_def)

lemma normalize_segments_cwd:
  "valid_cwd cwd \<Longrightarrow>
   normalize_segments a (cwd @ extra) = rev (foldl (normalize_step a) (rev cwd) extra)"
  by (simp add: normalize_segments_def foldl_normalize_valid)

lemma split_acc_no_sep:
  "c \<notin> set x \<Longrightarrow> split_acc c acc (x @ c # rest) = (rev acc @ x) # split_acc c [] rest"
  by (induction x arbitrary: acc) auto

lemma split_on_no_sep: "c \<notin> set x \<Longrightarrow> split_on c (x @ c # rest) = x # split_on c rest"
  by (simp add: split_on_def split_acc_no_sep)

lemma split_on_sep: "split_on c (c # rest) = [] # split_on c rest"
  by (simp add: split_on_def)

lemma split_on_Nil: "split_on c [] = [[]]"
  by (simp add: split_on_def)

lemma split_on_join:
  "segs \<noteq> [] \<Longrightarrow> \<forall>s\<in>set segs. CHR ''/'' \<notin> set s \<Longrightarrow>
   split_on (CHR ''/'') (join ''/'' segs @ CHR ''/'' # rest) = segs @ split_on (CHR ''/'') rest"
proof (induction segs)
  case Nil
  then show ?case by simp
next
  case (Cons x xs)
  show ?case
  proof (cases xs)
    case Nil
    then show ?thesis using Cons.prems by (simp add: split_on_no_sep)
  next
    case tail: (Cons y ys)
    have "split_on (CHR ''/'') (x @ CHR ''/'' # (join ''/'' xs @ CHR ''/'' # rest)) =
          x # split_on (CHR ''/'') (join ''/'' xs @ CHR ''/'' # rest)"
      using Cons.prems by (intro split_on_no_sep) simp
    then show ?thesis using tail Cons.IH Cons.prems by simp
  qed
qed

lemma drop_common_prefix: "drop_common (p @ xs) (p @ ys) = drop_common xs ys"
  by (induction p) auto

lemma resolve_segments_relative:
  assumes "valid_cwd cwd" "p \<noteq> []" "hd p \<noteq> CHR ''/''"
  shows "resolve_segments cwd [p] =
         rev (foldl (normalize_step False) (rev cwd) (split_on (CHR ''/'') (p @ ''/'')))"
  using assms by (simp add: resolve_segments_def normalize_segments_cwd)

lemma resolve_segments_two:
  assumes "valid_cwd cwd" "p \<noteq> []" "hd p \<noteq> CHR ''/''" "q \<noteq> []" "hd q \<noteq> CHR ''/''"
  shows "resolve_segments cwd [p, q] =
         rev (foldl (normalize_step False) (rev cwd) (split_on (CHR ''/'') (p @ ''/'' @ q @ ''/'')))"
  using assms by (simp add: resolve_segments_def normalize_segments_cwd)

lemma resolve_segments_absolute:
  assumes "valid_cwd cwd"
    and "\<forall>s\<in>set extra. s \<noteq> [] \<and> s \<noteq> ''.'' \<and> s \<noteq> ''..'' \<and> CHR ''/'' \<notin> set s"
  shows "resolve_segments cwd [''/'' @ join ''/'' (cwd @ extra)] = cwd @ extra"
proof (cases "cwd @ extra = []")
  case True
  then show ?thesis
    by (simp add: resolve_segments_def normalize_segments_def normalize_step_def split_on_def)
next
  case False
  have v: "valid_cwd (cwd @ extra)" using assms by (auto simp: valid_cwd_def list_all_iff)
  then have nosep: "\<forall>s\<in>set (cwd @ extra). CHR ''/'' \<notin> set s"
    by (auto simp: valid_cwd_def list_all_iff)
  have "split_on (CHR ''/'') (join ''/'' (cwd @ extra) @ CHR ''/'' # []) = (cwd @ extra) @ [[]]"
    using split_on_join[OF False nosep, of "[]"] by (simp add: split_on_Nil)
  then have "split_on (CHR ''/'') ((''/'' @ join ''/'' (cwd @ extra)) @ ''/'') =
      [] # (cwd @ extra) @ [[]]"
    by (simp add: split_on_sep)
  then show ?thesis
    using foldl_normalize_valid[OF v, of False "[]"]
    by (simp add: resolve_segments_def normalize_segments_def normalize_step_def)
qed

lemma example_relativeLink:
  assumes "valid_cwd cwd"
  shows "path_relative cwd ''.'' (path_resolve cwd [path_dirname ''a/b.md'', ''../c.md'']) = ''c.md''"
proof -
  have d: "path_dirname ''a/b.md'' = ''a''" by (simp add: path_dirname_def)
  have r: "resolve_segments cwd [''a'', ''../c.md''] = cwd @ [''c.md'']"
    using assms by (simp add: resolve_segments_two normalize_step_def split_on_def)
  have a: "resolve_segments cwd [''/'' @ join ''/'' (cwd @ [''c.md''])] = cwd @ [''c.md'']"
    using assms by (intro resolve_segments_absolute) auto
  have dot: "resolve_segments cwd [''.''] = cwd"
    using assms by (simp add: resolve_segments_relative normalize_step_def split_on_def)
  have "drop_common cwd (cwd @ [''c.md'']) = ([], [''c.md''])"
    using drop_common_prefix[of cwd "[]" "[''c.md'']"] by simp
  then show ?thesis
    using a dot by (simp add: path_relative_def path_resolve_def d r)
qed

lemma example_target:
  assumes "valid_cwd cwd"
  shows "path_relative cwd (path_dirname ''a/b.md'') ''d/c.md'' = ''../d/c.md''"
proof -
  have d: "path_dirname ''a/b.md'' = ''a''" by (simp add: path_dirname_def)
  have f: "resolve_segments cwd [''a''] = cwd @ [''a'']"
    using assms by (simp add: resolve_segments_relative normalize_step_def split_on_def)
  have t: "resolve_segments cwd [''d/c.md''] = cwd @ [''d'', ''c.md'']"
    using assms by (simp add: resolve_segments_relative normalize_step_def split_on_def)
  have "drop_common (cwd @ [''a'']) (cwd @ [''d'', ''c.md'']) = ([''a''], [''d'', ''c.md''])"
    by (simp add: drop_common_prefix)
  then show ?thesis by (simp add: path_relative_def d f t)
qed

lemma link_match_link:
  assumes "link_ready (Link label dest)"
  shows "link_match (legacy (Link label dest) @ rest) =
           Some ((''['' @ label @ '']('', dest, '')''), length (legacy (Link label dest)))"
proof -
  from assms have l: "label \<noteq> []" "\<forall>x\<in>set label. x \<noteq> CHR '']''"
    and d: "dest \<noteq> []" "\<forall>x\<in>set dest. x \<noteq> CHR '')''" by auto
  have t1: "takeWhile (\<lambda>c. c \<noteq> CHR '']'') (label @ CHR '']'' # CHR ''('' # dest @ CHR '')'' # rest) = label"
    using l(2) by (intro takeWhile_upto) auto
  have d1: "dropWhile (\<lambda>c. c \<noteq> CHR '']'') (label @ CHR '']'' # CHR ''('' # dest @ CHR '')'' # rest)
      = CHR '']'' # CHR ''('' # dest @ CHR '')'' # rest"
    using l(2) by (intro dropWhile_upto) auto
  have t2: "takeWhile (\<lambda>c. c \<noteq> CHR '')'') (dest @ CHR '')'' # rest) = dest"
    using d(2) by (intro takeWhile_upto) auto
  have d2: "dropWhile (\<lambda>c. c \<noteq> CHR '')'') (dest @ CHR '')'' # rest) = CHR '')'' # rest"
    using d(2) by (intro dropWhile_upto) auto
  show ?thesis using l(1) d(1) by (simp add: link_match_def t1 d1 t2 d2)
qed

lemma link_match_needs: "link_match s \<noteq> None \<Longrightarrow> starts_with s ''[''"
  by (auto simp: link_match_def split: if_splits)

lemma link_match_clear:
  assumes "clear ''['' t" and "i < length t"
  shows "link_match (drop i (t @ r)) = None"
  using clear_no_start[OF assms] link_match_needs by blast

lemma links_rewritten_scan:
  assumes "list_all link_ready ps"
  shows "replace_all_err link_match f (concat (map legacy ps) @ rest) =
         (case links_rewritten f ps of
            Inl e \<Rightarrow> Inl e
          | Inr before \<Rightarrow>
              (case replace_all_err link_match f rest of
                 Inl e \<Rightarrow> Inl e
               | Inr after \<Rightarrow> Inr (before @ after)))"
  using assms
proof (induction ps)
  case Nil
  show ?case by (simp split: sum.splits)
next
  case (Cons p ps)
  then have IH: "replace_all_err link_match f (concat (map legacy ps) @ rest) =
         (case links_rewritten f ps of
            Inl e \<Rightarrow> Inl e
          | Inr before \<Rightarrow>
              (case replace_all_err link_match f rest of
                 Inl e \<Rightarrow> Inl e
               | Inr after \<Rightarrow> Inr (before @ after)))" by simp
  from Cons.prems have p: "link_ready p" by simp
  show ?case
  proof (cases "\<exists>label dest. p = Link label dest")
    case True
    then obtain label dest where pl: "p = Link label dest" by blast
    have ne: "legacy (Link label dest) \<noteq> []" by simp
    have "replace_all_err link_match f (legacy (Link label dest) @ (concat (map legacy ps) @ rest)) =
        (case f (''['' @ label @ '']('', dest, '')'') of
            Inl e \<Rightarrow> Inl e
          | Inr r \<Rightarrow> (case replace_all_err link_match f (concat (map legacy ps) @ rest) of
                        Inl e \<Rightarrow> Inl e | Inr out \<Rightarrow> Inr (r @ out)))"
      using link_match_link[OF p[unfolded pl]] ne by (rule replace_all_err_hit)
    then show ?thesis unfolding pl IH by (simp split: sum.splits)
  next
    case False
    then have c: "clear ''['' (legacy p)" using p by (cases p) auto
    have lr: "links_rewritten f (p # ps) =
        (case links_rewritten f ps of Inl e \<Rightarrow> Inl e | Inr out \<Rightarrow> Inr (legacy p @ out))"
      using False by (cases p) auto
    have "replace_all_err link_match f (legacy p @ (concat (map legacy ps) @ rest)) =
        (case replace_all_err link_match f (concat (map legacy ps) @ rest) of
           Inl e \<Rightarrow> Inl e | Inr out \<Rightarrow> Inr (legacy p @ out))"
      using link_match_clear[OF c] by (intro replace_all_err_skip) blast
    then show ?thesis unfolding lr IH by (simp split: sum.splits)
  qed
qed


lemma split_acc_none: "c \<notin> set x \<Longrightarrow> split_acc c acc x = [rev acc @ x]"
  by (induction x arbitrary: acc) auto

lemma split_on_none: "c \<notin> set x \<Longrightarrow> split_on c x = [x]"
  by (simp add: split_on_def split_acc_none)

lemma example_callback:
  assumes "valid_cwd cwd" and "map_of reg ''c.md'' = Some ''d/c.md''"
    and "anchor \<noteq> []" and "CHR ''#'' \<notin> set anchor"
  shows "link_callback cwd reg ''a/b.md'' (start, ''../c.md#'' @ anchor, end) =
           Inr (start @ ''../d/c.md#'' @ anchor @ end)"
proof -
  have "split_on (CHR ''#'') (''../c.md'' @ CHR ''#'' # anchor) = ''../c.md'' # split_on (CHR ''#'') anchor"
    by (intro split_on_no_sep) simp
  then have sp: "split_on (CHR ''#'') (''../c.md#'' @ anchor) = [''../c.md'', anchor]"
    using assms(4) by (simp add: split_on_none)
  have sp': "split_on (CHR ''#'')
      (CHR ''.'' # CHR ''.'' # CHR ''/'' # CHR ''c'' # CHR ''.'' # CHR ''m'' # CHR ''d'' # CHR ''#'' # anchor)
      = [''../c.md'', anchor]"
    using sp by simp
  show ?thesis
    using assms(2,3) example_relativeLink[OF assms(1)] example_target[OF assms(1)]
    by (simp add: link_callback_def registry_get_def sp' Let_def)
qed

text \<open>
  C3: in a document at \<^verbatim>\<open>a/b.md\<close>, with the registry entry \<^verbatim>\<open>c.md\<close> \<open>\<rightarrow>\<close> \<^verbatim>\<open>d/c.md\<close> and
  whatever the working directory, the link rewriter gives an inline link with the
  destination \<^verbatim>\<open>../c.md#sec\<close> the destination \<^verbatim>\<open>../d/c.md#sec\<close>: the target relative to
  the directory of the document, the anchor appended as it was, and so for any anchor in
  the place of \<^verbatim>\<open>sec\<close>. The link may stand anywhere in the document: the pieces before
  it (text without \<^verbatim>\<open>[\<close> and other links) are rewritten link by link, the rest of the
  document on its own.
\<close>

theorem link_rewrite_renamed:
  assumes "valid_cwd cwd" and "map_of reg ''c.md'' = Some ''d/c.md''"
    and "list_all link_ready ps"
    and "label \<noteq> []" and "CHR '']'' \<notin> set label"
    and "anchor \<noteq> []" and "CHR ''#'' \<notin> set anchor" and "CHR '')'' \<notin> set anchor"
  shows "rewriteLinks cwd reg ''a/b.md''
           (concat (map legacy ps) @ ''['' @ label @ ''](../c.md#'' @ anchor @ '')'' @ rest) =
         (case links_rewritten (link_callback cwd reg ''a/b.md'') ps of
            Inl e \<Rightarrow> Inl e
          | Inr before \<Rightarrow>
              (case rewriteLinks cwd reg ''a/b.md'' rest of
                 Inl e \<Rightarrow> Inl e
               | Inr after \<Rightarrow>
                   Inr (before @ ''['' @ label @ ''](../d/c.md#'' @ anchor @ '')'' @ after)))"
proof -
  let ?f = "link_callback cwd reg ''a/b.md''"
  let ?dest = "''../c.md#'' @ anchor"
  have r: "link_ready (Link label ?dest)" using assms(4,5,8) by simp
  have cb: "?f (''['' @ label @ '']('', ?dest, '')'') =
      Inr ((''['' @ label @ '']('') @ ''../d/c.md#'' @ anchor @ '')'')"
    using assms(1,2,6,7) by (rule example_callback)
  have "replace_all_err link_match ?f (legacy (Link label ?dest) @ rest) =
      (case ?f (''['' @ label @ '']('', ?dest, '')'') of
         Inl e \<Rightarrow> Inl e
       | Inr r \<Rightarrow> (case replace_all_err link_match ?f rest of
                     Inl e \<Rightarrow> Inl e | Inr out \<Rightarrow> Inr (r @ out)))"
    using link_match_link[OF r] by (intro replace_all_err_hit) simp_all
  then have one: "replace_all_err link_match ?f (legacy (Link label ?dest) @ rest) =
      (case replace_all_err link_match ?f rest of
         Inl e \<Rightarrow> Inl e
       | Inr out \<Rightarrow> Inr (''['' @ label @ ''](../d/c.md#'' @ anchor @ '')'' @ out))"
    unfolding cb by (simp split: sum.splits)
  have "replace_all_err link_match ?f (concat (map legacy ps) @ (legacy (Link label ?dest) @ rest)) =
      (case links_rewritten ?f ps of
         Inl e \<Rightarrow> Inl e
       | Inr before \<Rightarrow>
           (case replace_all_err link_match ?f (legacy (Link label ?dest) @ rest) of
              Inl e \<Rightarrow> Inl e
            | Inr after \<Rightarrow> Inr (before @ after)))"
    using assms(3) by (rule links_rewritten_scan)
  then show ?thesis unfolding one by (simp add: rewriteLinks_def split: sum.splits)
qed

theorem link_rewrite_renamed_witness:
  "valid_cwd [''home'', ''site''] \<and> map_of [(''c.md'', ''d/c.md'')] ''c.md'' = Some ''d/c.md''
   \<and> list_all link_ready [Link ''first'' ''x.md'', Text '' and '']
   \<and> rewriteLinks [''home'', ''site''] [(''c.md'', ''d/c.md'')] ''a/b.md''
        ''[first](x.md) and [the page](../c.md#sec), [last](../c.md#top).'' =
      Inr ''[first](x.md) and [the page](../d/c.md#sec), [last](../d/c.md#top).''"
proof -
  have h1: "valid_cwd [''home'', ''site'']" by (simp add: valid_cwd_def)
  have h2: "map_of [(''c.md'', ''d/c.md'')] ''c.md'' = Some ''d/c.md''" by simp
  have h3: "list_all link_ready [Link ''first'' ''x.md'', Text '' and '']"
    by (simp add: clear_def)
  have before: "links_rewritten (link_callback [''home'', ''site''] [(''c.md'', ''d/c.md'')] ''a/b.md'')
      [Link ''first'' ''x.md'', Text '' and ''] = Inr ''[first](x.md) and ''"
    by (simp add: path_eval_defs ends_with_def Let_def)
  have after: "rewriteLinks [''home'', ''site''] [(''c.md'', ''d/c.md'')] ''a/b.md''
      '', [last](../c.md#top).'' = Inr '', [last](../d/c.md#top).''"
    by (simp add: rewriteLinks_def replace_all_err.simps link_match_def path_eval_defs Let_def)
  from link_rewrite_renamed[OF h1 h2 h3, of "''the page''" "''sec''" "'', [last](../c.md#top).''"]
  show ?thesis using h1 h2 h3 before after by simp
qed


section \<open>Properties of the navigation tree transformer\<close>

lemma ends_with_includes: "ends_with s p \<Longrightarrow> str_includes s p"
  using index_of_occurs[of p _ "[]"] by (auto simp: ends_with_iff str_includes_def)

lemma replace_first_absent: "\<not> str_includes s p \<Longrightarrow> replace_first s p r = s"
  by (simp add: str_includes_def replace_first_def)

lemma map_of_prop_set_same: "map_of (prop_set k v ps) k = Some v"
  by (induction ps) auto

lemma own_field_prop_set_same: "own_field (prop_set k v ps) k = v"
  by (simp add: own_field_def map_of_prop_set_same)

lemma page_yaml_not_wildcard: "ends_with s ''.page.yaml'' \<Longrightarrow> \<not> ends_with s ''/*''"
  by (auto simp: ends_with_iff)

lemma page_yaml_wildcard:
  assumes "ends_with s ''.page.yaml/*''"
  shows "ends_with s ''/*''"
proof -
  from assms obtain a where "s = a @ ''.page.yaml/*''" by (auto simp: ends_with_iff)
  then have "s = (a @ ''.page.yaml'') @ ''/*''" by simp
  then show ?thesis unfolding ends_with_iff by blast
qed

lemma transformSidebarList_first_error:
  "transformSidebarItem cwd reg filePath x = Inl e \<Longrightarrow>
   transformSidebarList cwd reg filePath (before @ x # after) =
     (case transformSidebarList cwd reg filePath before of Inl e' \<Rightarrow> Inl e' | Inr ys \<Rightarrow> Inl e)"
  by (induction before) (auto split: sum.splits)

lemma missing_entry_item:
  assumes "get_field item ''pages'' = Inr pages" and "\<not> truthy pages"
    and "get_field item ''page'' = Inr (Str s)"
    and "ends_with s ''.page.yaml'' \<or> ends_with s ''.page.yaml/*''"
    and "\<not> lookup_truthy (registry_get reg (pageYamlFile cwd filePath s))"
  shows "transformSidebarItem cwd reg filePath item = Inl (NoRenamedFile (pageYamlFile cwd filePath s))"
proof -
  have tp: "transformSidebarItem cwd reg filePath item = transformPage cwd reg filePath item"
    using assms(1,2) by (simp add: transformSidebarItem.simps)
  have rp: "renamed_page cwd reg filePath s = Inl (NoRenamedFile (pageYamlFile cwd filePath s))"
    using assms(5) by (simp add: renamed_page_def Let_def)
  from assms(4) show ?thesis
  proof
    assume e: "ends_with s ''.page.yaml''"
    then have "\<not> ends_with s ''/*''" by (rule page_yaml_not_wildcard)
    then show ?thesis using tp rp e assms(3) by (simp add: transformPage_def)
  next
    assume e: "ends_with s ''.page.yaml/*''"
    then have "ends_with s ''/*''" by (rule page_yaml_wildcard)
    then show ?thesis using tp rp e assms(3) by (simp add: transformPage_def)
  qed
qed

lemmas sidebar_eval_defs =
  transformSidebarItems.simps transformSidebarItem.simps transformPage_def renamed_page_def
  pageYamlFile_def relativeLink_def own_field_def ends_with_def replace_first_def
  path_relative_def path_resolve_def resolve_segments_def normalize_segments_def
  normalize_step_def path_dirname_def registry_get_def object_prototype_members_def
  comes_before_def array_index_def split_on_def Let_def

text \<open>
  C5, as stated, fails: an item with a \<^verbatim>\<open>pages\<close> list is a group, and the transformer
  does not look at its \<^verbatim>\<open>page\<close>. With an empty registry, the group below, whose
  \<^verbatim>\<open>page\<close> is \<^verbatim>\<open>api.page.yaml\<close>, is transformed without any error.
\<close>

theorem page_yaml_under_pages_counterexample:
  "registry_get [] (pageYamlFile [''site''] ''./sidebars.yaml'' ''api.page.yaml'') = Absent
   \<and> transformSidebarItem [''site''] [] ''./sidebars.yaml''
       (Obj (Addr 1) [(''group'', Str ''API''), (''page'', Str ''api.page.yaml''),
                      (''pages'', Arr (Addr 2) [Obj (Addr 3) [(''page'', Str ''intro.md'')]])]) =
     Inr (Obj Fresh [(''group'', Str ''API''), (''page'', Str ''api.page.yaml''),
                     (''pages'', Undefined),
                     (''items'', Arr Fresh [Obj (Addr 3) [(''page'', Str ''intro.md'')]])])"
  by (simp add: sidebar_eval_defs)

text \<open>
  C5, amended: during navigation-tree transformation, for every node that has no truthy
  \<^verbatim>\<open>pages\<close> field and whose \<^verbatim>\<open>page\<close> names a structured-page-collection file (it ends in
  \<^verbatim>\<open>.page.yaml\<close> or in \<^verbatim>\<open>.page.yaml/*\<close>), if the registry lookup of the resolved path
  yields nothing, the transformer throws \<^verbatim>\<open>No renamed file found for\<close> that path on the node
  rather than leaving the node as it is or guessing. The transformation of a list that holds
  the node, that of a group whose \<^verbatim>\<open>pages\<close> are such a list, and the migration of a tree file
  that loads as such a list all end in an error, the one of the first item of the list that
  fails: the error of the node when the items before it are transformed without error, the
  error of one of these otherwise.
\<close>

theorem missing_page_yaml_entry_fatal:
  assumes "get_field item ''pages'' = Inr pages" and "\<not> truthy pages"
    and "get_field item ''page'' = Inr (Str s)"
    and "ends_with s ''.page.yaml'' \<or> ends_with s ''.page.yaml/*''"
    and "\<not> lookup_truthy (registry_get reg (pageYamlFile cwd filePath s))"
  shows "transformSidebarItem cwd reg filePath item = Inl (NoRenamedFile (pageYamlFile cwd filePath s))
       \<and> transformSidebarItems cwd reg filePath (Arr r (before @ item # after)) =
           (case transformSidebarList cwd reg filePath before of
              Inl e \<Rightarrow> Inl e
            | Inr ys \<Rightarrow> Inl (NoRenamedFile (pageYamlFile cwd filePath s)))
       \<and> (get_field parent ''pages'' = Inr (Arr r (before @ item # after)) \<longrightarrow>
            transformSidebarItem cwd reg filePath parent =
              (case transformSidebarList cwd reg filePath before of
                 Inl e \<Rightarrow> Inl e
               | Inr ys \<Rightarrow> Inl (NoRenamedFile (pageYamlFile cwd filePath s))))
       \<and> (readFileSync cwd files filePath = Inr content \<longrightarrow>
            yaml_load ext content = Inr (Arr r (before @ item # after)) \<longrightarrow>
            migrateSidebars ext cwd reg (filePath # rest) files =
              (case transformSidebarList cwd reg filePath before of
                 Inl e \<Rightarrow> Inl e
               | Inr ys \<Rightarrow> Inl (NoRenamedFile (pageYamlFile cwd filePath s))))"
proof -
  let ?err = "NoRenamedFile (pageYamlFile cwd filePath s)"
  have i: "transformSidebarItem cwd reg filePath item = Inl ?err"
    using assms by (rule missing_entry_item)
  have l: "transformSidebarItems cwd reg filePath (Arr r (before @ item # after)) =
      (case transformSidebarList cwd reg filePath before of Inl e \<Rightarrow> Inl e | Inr ys \<Rightarrow> Inl ?err)"
    by (simp add: transformSidebarItems.simps transformSidebarList_first_error[OF i]
        split: sum.splits)
  have g: "transformSidebarItem cwd reg filePath parent =
      (case transformSidebarList cwd reg filePath before of Inl e \<Rightarrow> Inl e | Inr ys \<Rightarrow> Inl ?err)"
    if "get_field parent ''pages'' = Inr (Arr r (before @ item # after))"
    using that l by (simp add: transformSidebarItem.simps split: sum.splits)
  have m: "migrateSidebars ext cwd reg (filePath # rest) files =
      (case transformSidebarList cwd reg filePath before of Inl e \<Rightarrow> Inl e | Inr ys \<Rightarrow> Inl ?err)"
    if "readFileSync cwd files filePath = Inr content"
      "yaml_load ext content = Inr (Arr r (before @ item # after))"
    using that l by (simp split: sum.splits)
  from i l g m show ?thesis by blast
qed

theorem missing_page_yaml_entry_fatal_witness:
  "get_field (Obj (Addr 1) [(''label'', Str ''API''), (''page'', Str ''api.page.yaml/*'')]) ''pages''
     = Inr Undefined
   \<and> \<not> truthy Undefined
   \<and> get_field (Obj (Addr 1) [(''label'', Str ''API''), (''page'', Str ''api.page.yaml/*'')]) ''page''
     = Inr (Str ''api.page.yaml/*'')
   \<and> ends_with ''api.page.yaml/*'' ''.page.yaml/*''
   \<and> \<not> lookup_truthy (registry_get [(''other.page.yaml'', ''other.yaml'')]
          (pageYamlFile [''site''] ''./docs/sidebars.yaml'' ''api.page.yaml/*''))
   \<and> transformSidebarItem [''site''] [(''other.page.yaml'', ''other.yaml'')] ''./docs/sidebars.yaml''
        (Obj (Addr 1) [(''label'', Str ''API''), (''page'', Str ''api.page.yaml/*'')])
      = Inl (NoRenamedFile ''docs/api.page.yaml'')
   \<and> transformSidebarItems [''site''] [(''other.page.yaml'', ''other.yaml'')] ''./docs/sidebars.yaml''
        (Arr (Addr 2)
           [Obj (Addr 3) [(''page'', Str ''intro.md'')],
            Obj (Addr 1) [(''label'', Str ''API''), (''page'', Str ''api.page.yaml/*'')],
            Null])
      = Inl (NoRenamedFile ''docs/api.page.yaml'')
   \<and> transformSidebarItems [''site''] [(''other.page.yaml'', ''other.yaml'')] ''./docs/sidebars.yaml''
        (Arr (Addr 2)
           [Null,
            Obj (Addr 1) [(''label'', Str ''API''), (''page'', Str ''api.page.yaml/*'')]])
      = Inl TypeError"
proof -
  let ?item = "Obj (Addr 1) [(''label'', Str ''API''), (''page'', Str ''api.page.yaml/*'')]"
  let ?reg = "[(''other.page.yaml'', ''other.yaml'')]"
  have h1: "get_field ?item ''pages'' = Inr Undefined"
    by (simp add: own_field_def)
  have h2: "\<not> truthy Undefined" by simp
  have h3: "get_field ?item ''page'' = Inr (Str ''api.page.yaml/*'')"
    by (simp add: own_field_def)
  have h4: "ends_with ''api.page.yaml/*'' ''.page.yaml'' \<or> ends_with ''api.page.yaml/*'' ''.page.yaml/*''"
    by (simp add: ends_with_def)
  have k: "pageYamlFile [''site''] ''./docs/sidebars.yaml'' ''api.page.yaml/*'' = ''docs/api.page.yaml''"
    by (simp add: sidebar_eval_defs)
  have h5: "\<not> lookup_truthy (registry_get ?reg
          (pageYamlFile [''site''] ''./docs/sidebars.yaml'' ''api.page.yaml/*''))"
    unfolding k by (simp add: registry_get_def object_prototype_members_def)
  have b1: "transformSidebarList [''site''] ?reg ''./docs/sidebars.yaml''
      [Obj (Addr 3) [(''page'', Str ''intro.md'')]] = Inr [Obj (Addr 3) [(''page'', Str ''intro.md'')]]"
    by (simp add: sidebar_eval_defs)
  have b2: "transformSidebarList [''site''] ?reg ''./docs/sidebars.yaml'' [Null] = Inl TypeError"
    by (simp add: sidebar_eval_defs)
  note t = missing_page_yaml_entry_fatal[OF h1 h2 h3 h4 h5, unfolded k]
  have "transformSidebarItem [''site''] ?reg ''./docs/sidebars.yaml'' ?item
      = Inl (NoRenamedFile ''docs/api.page.yaml'')"
    using t by blast
  moreover have "transformSidebarItems [''site''] ?reg ''./docs/sidebars.yaml''
        (Arr (Addr 2) [Obj (Addr 3) [(''page'', Str ''intro.md'')], ?item, Null])
      = Inl (NoRenamedFile ''docs/api.page.yaml'')"
    using t[of "Addr 2" "[Obj (Addr 3) [(''page'', Str ''intro.md'')]]" "[Null]"] b1 by simp
  moreover have "transformSidebarItems [''site''] ?reg ''./docs/sidebars.yaml''
        (Arr (Addr 2) [Null, ?item]) = Inl TypeError"
    using t[of "Addr 2" "[Null]" "[]"] b2 by simp
  ultimately show ?thesis using h1 h2 h3 h5 by (simp add: ends_with_def)
qed

text \<open>
  C4, as stated, fails: a node whose \<^verbatim>\<open>page\<close> is a directory wildcard is not left as it
  is when the registry has no entry for it; it becomes a directory reference.
\<close>

theorem wildcard_directory_counterexample:
  "registry_get [] (relativeLink [''site''] ''./sidebars.yaml'' ''guides/*'') = Absent
   \<and> transformSidebarItem [''site''] [] ''./sidebars.yaml''
       (Obj (Addr 1) [(''label'', Str ''Guides''), (''page'', Str ''guides/*'')]) =
     Inr (Obj Fresh [(''label'', Str ''Guides''), (''page'', Undefined),
                     (''directory'', Str ''guides'')])"
  by (simp add: sidebar_eval_defs)

text \<open>
  C4, amended: for every navigation node that has no truthy \<^verbatim>\<open>pages\<close> field and whose
  \<^verbatim>\<open>page\<close> is a non-empty string without the wildcard \<^verbatim>\<open>/*\<close>: if the path, resolved
  against the directory of the tree file, has a non-empty entry in the registry, the
  transformed node's \<^verbatim>\<open>page\<close> is that entry's target relative to the directory of the
  tree file; if the lookup of the resolved path yields nothing and the page is not a
  structured-page-collection file (\<^verbatim>\<open>.page.yaml\<close>), the node is left as it is.
\<close>

theorem page_rename_resolution:
  assumes "get_field item ''pages'' = Inr pages" and "\<not> truthy pages"
    and "get_field item ''page'' = Inr (Str s)" and "s \<noteq> []" and "\<not> str_includes s ''/*''"
  shows "(registry_get reg (relativeLink cwd filePath s) = Own t \<and> t \<noteq> [] \<longrightarrow>
            (\<exists>f'. transformSidebarItem cwd reg filePath item = Inr (Obj Fresh f')
                 \<and> own_field f' ''page'' = Str (path_relative cwd (path_dirname filePath) t)))
       \<and> (registry_get reg (relativeLink cwd filePath s) = Absent \<and> \<not> ends_with s ''.page.yaml'' \<longrightarrow>
            transformSidebarItem cwd reg filePath item = Inr item)"
proof -
  have tp: "transformSidebarItem cwd reg filePath item = transformPage cwd reg filePath item"
    using assms(1,2) by (simp add: transformSidebarItem.simps)
  have nw: "\<not> ends_with s ''/*''" using assms(5) ends_with_includes by blast
  have key: "pageYamlFile cwd filePath s = relativeLink cwd filePath s"
    using assms(5) by (simp add: pageYamlFile_def relativeLink_def replace_first_absent)
  show ?thesis
  proof (intro conjI impI)
    assume a: "registry_get reg (relativeLink cwd filePath s) = Own t \<and> t \<noteq> []"
    show "\<exists>f'. transformSidebarItem cwd reg filePath item = Inr (Obj Fresh f')
                 \<and> own_field f' ''page'' = Str (path_relative cwd (path_dirname filePath) t)"
    proof (cases "ends_with s ''.page.yaml''")
      case True
      then show ?thesis
        using tp nw key a assms(3)
        by (simp add: transformPage_def renamed_page_def own_field_prop_set_same)
    next
      case False
      then show ?thesis
        using tp nw a assms(3,4)
        by (simp add: transformPage_def own_field_prop_set_same)
    qed
  next
    assume a: "registry_get reg (relativeLink cwd filePath s) = Absent \<and> \<not> ends_with s ''.page.yaml''"
    then show "transformSidebarItem cwd reg filePath item = Inr item"
      using tp nw assms(3) by (simp add: transformPage_def)
  qed
qed

theorem page_rename_resolution_witness:
  "get_field (Obj (Addr 1) [(''label'', Str ''Intro''), (''page'', Str ''intro.mdx'')]) ''pages''
     = Inr Undefined
   \<and> \<not> truthy Undefined
   \<and> get_field (Obj (Addr 1) [(''label'', Str ''Intro''), (''page'', Str ''intro.mdx'')]) ''page''
     = Inr (Str ''intro.mdx'')
   \<and> ''intro.mdx'' \<noteq> [] \<and> \<not> str_includes ''intro.mdx'' ''/*''
   \<and> registry_get [(''docs/intro.mdx'', ''./docs/intro.md'')]
        (relativeLink [''site''] ''./docs/sidebars.yaml'' ''intro.mdx'') = Own ''./docs/intro.md''
   \<and> path_relative [''site''] (path_dirname ''./docs/sidebars.yaml'') ''./docs/intro.md'' = ''intro.md''
   \<and> (\<exists>f'. transformSidebarItem [''site''] [(''docs/intro.mdx'', ''./docs/intro.md'')]
              ''./docs/sidebars.yaml''
              (Obj (Addr 1) [(''label'', Str ''Intro''), (''page'', Str ''intro.mdx'')])
            = Inr (Obj Fresh f') \<and> own_field f' ''page'' = Str ''intro.md'')
   \<and> registry_get [] (relativeLink [''site''] ''./docs/sidebars.yaml'' ''intro.mdx'') = Absent
   \<and> \<not> ends_with ''intro.mdx'' ''.page.yaml''
   \<and> transformSidebarItem [''site''] [] ''./docs/sidebars.yaml''
        (Obj (Addr 1) [(''label'', Str ''Intro''), (''page'', Str ''intro.mdx'')])
      = Inr (Obj (Addr 1) [(''label'', Str ''Intro''), (''page'', Str ''intro.mdx'')])"
proof -
  have h1: "get_field (Obj (Addr 1) [(''label'', Str ''Intro''), (''page'', Str ''intro.mdx'')])
      ''pages'' = Inr Undefined"
    by (simp add: own_field_def)
  have h2: "\<not> truthy Undefined" by simp
  have h3: "get_field (Obj (Addr 1) [(''label'', Str ''Intro''), (''page'', Str ''intro.mdx'')])
      ''page'' = Inr (Str ''intro.mdx'')"
    by (simp add: own_field_def)
  have h4: "''intro.mdx'' \<noteq> []" by simp
  have h5: "\<not> str_includes ''intro.mdx'' ''/*''" by (simp add: str_includes_def)
  have k: "relativeLink [''site''] ''./docs/sidebars.yaml'' ''intro.mdx'' = ''docs/intro.mdx''"
    by (simp add: sidebar_eval_defs)
  have r: "path_relative [''site''] (path_dirname ''./docs/sidebars.yaml'') ''./docs/intro.md'' =
      ''intro.md''"
    by (simp add: sidebar_eval_defs)
  have own: "registry_get [(''docs/intro.mdx'', ''./docs/intro.md'')]
        (relativeLink [''site''] ''./docs/sidebars.yaml'' ''intro.mdx'') = Own ''./docs/intro.md''"
    unfolding k by (simp add: registry_get_def)
  have absent: "registry_get [] (relativeLink [''site''] ''./docs/sidebars.yaml'' ''intro.mdx'') = Absent"
    unfolding k by (simp add: registry_get_def object_prototype_members_def)
  have ne: "\<not> ends_with ''intro.mdx'' ''.page.yaml''" by (simp add: ends_with_def)
  have a: "\<exists>f'. transformSidebarItem [''site''] [(''docs/intro.mdx'', ''./docs/intro.md'')]
              ''./docs/sidebars.yaml''
              (Obj (Addr 1) [(''label'', Str ''Intro''), (''page'', Str ''intro.mdx'')])
            = Inr (Obj Fresh f') \<and> own_field f' ''page'' = Str ''intro.md''"
    using page_rename_resolution[OF h1 h2 h3 h4 h5,
        of "[(''docs/intro.mdx'', ''./docs/intro.md'')]" "[''site'']" "''./docs/sidebars.yaml''"
           "''./docs/intro.md''"] own r
    by simp
  have b: "transformSidebarItem [''site''] [] ''./docs/sidebars.yaml''
        (Obj (Addr 1) [(''label'', Str ''Intro''), (''page'', Str ''intro.mdx'')])
      = Inr (Obj (Addr 1) [(''label'', Str ''Intro''), (''page'', Str ''intro.mdx'')])"
    using page_rename_resolution[OF h1 h2 h3 h4 h5, of "[]" "[''site'']" "''./docs/sidebars.yaml''"]
      absent ne
    by simp
  show ?thesis using h1 h2 h3 h5 own r a absent ne b by simp
qed

lemma migrateSidebars_stop:
  assumes "migrateSidebars ext cwd reg pre files = Inr files1"
    and "readFileSync cwd files1 filePath = Inr content"
    and "yaml_load ext content = Inr data" and "\<not> is_object data"
  shows "migrateSidebars ext cwd reg (pre @ filePath # post) files = Inr files1"
  using assms
proof (induction pre arbitrary: files)
  case Nil
  then show ?case by simp
next
  case (Cons p ps)
  show ?case
  proof (cases "readFileSync cwd files p")
    case (Inl e)
    with Cons.prems(1) show ?thesis by simp
  next
    case (Inr c)
    show ?thesis
    proof (cases "yaml_load ext c")
      case (Inl e)
      with Cons.prems(1) Inr show ?thesis by simp
    next
      case d: (Inr d)
      show ?thesis
      proof (cases "is_object d")
        case False
        with Cons.prems(1) Inr d show ?thesis by simp
      next
        case True
        show ?thesis
        proof (cases d)
          case (Arr a xs)
          show ?thesis
          proof (cases "transformSidebarItems cwd reg p d")
            case (Inl e)
            with Cons.prems(1) Inr d Arr show ?thesis by simp
          next
            case nd: (Inr newData)
            define files' where "files' = (if \<not> dequal d newData
                              then writeFileSync cwd files p (yaml_dump ext newData)
                              else files)"
            have "migrateSidebars ext cwd reg ps files' = Inr files1"
              using Cons.prems(1) Inr d Arr nd by (simp add: files'_def)
            from Cons.IH[OF this Cons.prems(2-4)]
            show ?thesis using Inr d Arr nd by (simp add: files'_def)
          qed
        next
          case (Obj a f)
          show ?thesis
          proof (cases "sidebarEntries ext cwd reg p (own_props d) 0 files")
            case (Inl e)
            with Cons.prems(1) Inr d Obj show ?thesis by simp
          next
            case fs': (Inr files')
            have "migrateSidebars ext cwd reg ps files' = Inr files1"
              using Cons.prems(1) Inr d Obj fs' by simp
            from Cons.IH[OF this Cons.prems(2-4)]
            show ?thesis using Inr d Obj fs' by simp
          qed
        qed (use True in auto)
      qed
    qed
  qed
qed

text \<open>
  C10: when the tree files before \<open>filePath\<close> in the listing have been migrated, leaving
  the file system \<open>files1\<close>, and \<open>filePath\<close> loads as a value that is not an object
  (\<^verbatim>\<open>null\<close> included), the migration of the whole listing ends there with \<open>files1\<close>:
  whatever files \<open>post\<close> come later in the listing, none of them is read or written.
\<close>

theorem sidebars_stop_at_non_object:
  assumes "migrateSidebars ext cwd reg pre files = Inr files1"
    and "readFileSync cwd files1 filePath = Inr content"
    and "yaml_load ext content = Inr data" and "\<not> is_object data"
  shows "migrateSidebars ext cwd reg (pre @ filePath # post) files = Inr files1"
  using assms by (rule migrateSidebars_stop)

theorem sidebars_stop_at_non_object_witness:
  "migrateSidebars sample_extern [''site''] [(''docs/intro.mdx'', ''./docs/intro.md'')] []
     [''/site/sidebars.yaml'' \<mapsto> ''Guides'', ''/site/docs/sidebars.yaml'' \<mapsto> ''- page: intro.mdx'']
     = Inr [''/site/sidebars.yaml'' \<mapsto> ''Guides'', ''/site/docs/sidebars.yaml'' \<mapsto> ''- page: intro.mdx'']
   \<and> readFileSync [''site'']
        [''/site/sidebars.yaml'' \<mapsto> ''Guides'', ''/site/docs/sidebars.yaml'' \<mapsto> ''- page: intro.mdx'']
        ''./sidebars.yaml'' = Inr ''Guides''
   \<and> yaml_load sample_extern ''Guides'' = Inr (Str ''Guides'') \<and> \<not> is_object (Str ''Guides'')
   \<and> migrateSidebars sample_extern [''site''] [(''docs/intro.mdx'', ''./docs/intro.md'')]
        [''./sidebars.yaml'', ''./docs/sidebars.yaml'']
        [''/site/sidebars.yaml'' \<mapsto> ''Guides'', ''/site/docs/sidebars.yaml'' \<mapsto> ''- page: intro.mdx'']
     = Inr [''/site/sidebars.yaml'' \<mapsto> ''Guides'', ''/site/docs/sidebars.yaml'' \<mapsto> ''- page: intro.mdx'']
   \<and> migrateSidebars sample_extern [''site''] [(''docs/intro.mdx'', ''./docs/intro.md'')]
        [''./docs/sidebars.yaml'']
        [''/site/sidebars.yaml'' \<mapsto> ''Guides'', ''/site/docs/sidebars.yaml'' \<mapsto> ''- page: intro.mdx'']
     = Inr [''/site/sidebars.yaml'' \<mapsto> ''Guides'',
            ''/site/docs/sidebars.yaml'' \<mapsto> ''- page: intro.md\<newline>'']"
proof -
  let ?files = "[''/site/sidebars.yaml'' \<mapsto> ''Guides'',
                 ''/site/docs/sidebars.yaml'' \<mapsto> ''- page: intro.mdx'']"
  let ?reg = "[(''docs/intro.mdx'', ''./docs/intro.md'')]"
  have h1: "migrateSidebars sample_extern [''site''] ?reg [] ?files = Inr ?files" by simp
  have h2: "readFileSync [''site''] ?files ''./sidebars.yaml'' = Inr ''Guides''"
    by (simp add: readFileSync_def sidebar_eval_defs)
  have h3: "yaml_load sample_extern ''Guides'' = Inr (Str ''Guides'')"
    by (simp add: sample_extern_def yaml_table_def)
  have h4: "\<not> is_object (Str ''Guides'')" by simp
  have stop: "migrateSidebars sample_extern [''site''] ?reg
        ([] @ ''./sidebars.yaml'' # [''./docs/sidebars.yaml'']) ?files = Inr ?files"
    using sidebars_stop_at_non_object[OF h1 h2 h3 h4] .
  have go: "migrateSidebars sample_extern [''site''] ?reg [''./docs/sidebars.yaml''] ?files
     = Inr [''/site/sidebars.yaml'' \<mapsto> ''Guides'',
            ''/site/docs/sidebars.yaml'' \<mapsto> ''- page: intro.md\<newline>'']"
    by (simp add: readFileSync_def writeFileSync_def sample_extern_def yaml_table_def
        dump_table_def sidebar_eval_defs dequal.simps(1) js_nth_def)
  show ?thesis using h1 h2 h3 h4 stop go by simp
qed

section \<open>Properties of the rename registry\<close>

lemma prop_set_twice: "prop_set k v2 (prop_set k v1 ps) = prop_set k v2 ps"
  by (induction ps) auto

lemma prop_assign_twice: "prop_assign k v2 (prop_assign k v1 ps) = prop_assign k v2 ps"
  by (simp add: prop_assign_def prop_set_twice)

lemma recordRename_twice:
  "recordRename filePath t2 (recordRename filePath t1 st) = recordRename filePath t2 st"
  by (simp add: recordRename_def prop_assign_twice)

lemma recordPermission_registry:
  "renamedFiles (recordPermission cwd pageYaml target st) = renamedFiles st"
  by (simp add: recordPermission_def)

lemma migratePageYaml_registry:
  assumes "migratePageYaml ext cwd oas definitionId pageYaml targetPath versioned (st, files, added)
             = Inr (renamed, (st', files', added'))"
  shows "renamedFiles st' = renamedFiles st"
proof (cases "map_of oas (property_key ext definitionId)")
  case None
  with assms show ?thesis
    by (auto simp: migratePageYaml_def Let_def split: if_splits)
next
  case (Some definitionPath)
  show ?thesis
  proof (cases "truthy definitionPath")
    case False
    with assms Some show ?thesis by (auto simp: migratePageYaml_def Let_def)
  next
    case True
    show ?thesis
    proof (cases definitionPath)
      case (Str p)
      show ?thesis
      proof (cases "is_remote p")
        case r: True
        from assms Some True Str r show ?thesis
          by (simp add: migratePageYaml_def Let_def recordPermission_registry split: if_splits)
            (auto simp: recordPermission_registry)
      next
        case r: False
        from assms Some True Str r show ?thesis
          by (auto simp: migratePageYaml_def Let_def recordPermission_registry
                   split: sum.splits if_splits)
      qed
    qed (use assms Some True in \<open>auto simp: migratePageYaml_def Let_def\<close>)
  qed
qed

lemma recordIfRenamed_registry:
  "renamedFiles (fst (recordIfRenamed filePath renamed (st, files, added))) = renamedFiles st
   \<or> (\<exists>r. renamedFiles (fst (recordIfRenamed filePath renamed (st, files, added)))
            = prop_assign (path_normalize filePath) r (renamedFiles st))"
  by (auto simp: recordIfRenamed_def recordRename_def split: option.splits)

lemma migrateVersions_registry:
  assumes "migrateVersions ext cwd oas filePath xs (st, files, added) = Inr (st', files', added')"
  shows "renamedFiles st' = renamedFiles st
       \<or> (\<exists>r. renamedFiles st' = prop_assign (path_normalize filePath) r (renamedFiles st))"
  using assms
proof (induction xs arbitrary: st files added)
  case Nil
  then show ?case by simp
next
  case (Cons version rest)
  show ?case
  proof (cases "get_field version ''definitionId''")
    case (Inl e)
    with Cons.prems show ?thesis by simp
  next
    case (Inr definitionId)
    show ?thesis
    proof (cases "truthy definitionId")
      case False
      with Cons.prems Inr have "migrateVersions ext cwd oas filePath rest (st, files, added)
          = Inr (st', files', added')" by simp
      then show ?thesis by (rule Cons.IH)
    next
      case True
      let ?target = "path_join [path_dirname filePath, path_basename filePath ''.page.yaml'',
                                ''@'' @ display ext (field version ''id''), ''index.yaml'']"
      show ?thesis
      proof (cases "migratePageYaml ext cwd oas definitionId version ?target True (st, files, added)")
        case (Inl e)
        with Cons.prems Inr True show ?thesis by simp
      next
        case step: (Inr res)
        obtain renamed st1 files1 added1 where res: "res = (renamed, (st1, files1, added1))"
          by (cases res) auto
        have keep: "renamedFiles st1 = renamedFiles st"
          using step res migratePageYaml_registry by blast
        obtain st2 files2 added2
          where w2: "recordIfRenamed filePath renamed (st1, files1, added1) = (st2, files2, added2)"
          by (cases "recordIfRenamed filePath renamed (st1, files1, added1)") auto
        have one: "renamedFiles st2 = renamedFiles st
            \<or> (\<exists>r. renamedFiles st2 = prop_assign (path_normalize filePath) r (renamedFiles st))"
          using recordIfRenamed_registry[of filePath renamed st1 files1 added1] w2 keep by simp
        have "migrateVersions ext cwd oas filePath rest (st2, files2, added2)
            = Inr (st', files', added')"
          using Cons.prems Inr True step res w2 by simp
        from Cons.IH[OF this]
        have two: "renamedFiles st' = renamedFiles st2
            \<or> (\<exists>r. renamedFiles st' = prop_assign (path_normalize filePath) r (renamedFiles st2))" .
        from one two show ?thesis
          by (auto simp: prop_assign_twice)
      qed
    qed
  qed
qed

lemmas relocate_eval_defs =
  migrateOpenAPI_def migratePageYamlFile_def migratePageYaml_def recordIfRenamed_def
  recordRename_def recordPermission_def field_def own_field_def display_def property_key_def
  is_remote_def str_includes_def readFileSync_def writeFileSync_def unlinkSync_def
  path_join_def path_normalize_def path_basename_def path_dirname_def path_resolve_def
  resolve_segments_def normalize_segments_def normalize_step_def split_on_def ends_with_def
  prop_assign_def comes_before_def array_index_def object_prototype_members_def
  sample_extern_def yaml_table_def initial_state_def Let_def

text \<open>
  C2, as stated, fails: the script has no check for a key that is already in the registry.
  The page file \<^verbatim>\<open>./api.page.yaml\<close> below has two versions, each with a remote
  definition. The loop over the versions records the target of the first under the path of
  the file, and then the target of the second under the same path; the run of
  \<^verbatim>\<open>migrateOpenAPI\<close> ends without error, and the registry holds the second target only.
\<close>

theorem registry_overwrite_counterexample:
  "map_sum id (renamedFiles \<circ> fst)
     (migrateVersions sample_extern [''site'']
        [(''pets-v1'', Str ''https://example.com/v1.yaml''),
         (''pets-v2'', Str ''https://example.com/v2.yaml'')]
        ''./api.page.yaml''
        [Obj (Addr 3) [(''id'', Str ''v1''), (''definitionId'', Str ''pets-v1'')]]
        (initial_state, Map.empty, False))
   = Inr [(''api.page.yaml'', ''api/@v1/v1.yaml'')]
   \<and> map_sum id (renamedFiles \<circ> fst)
     (migrateOpenAPI sample_extern [''site''] [''./api.page.yaml'']
        (initial_state,
         [''/site/siteConfig.yaml'' \<mapsto> ''oasDefinitions:\<newline>  pets-v1: https://example.com/v1.yaml\<newline>  pets-v2: https://example.com/v2.yaml'',
          ''/site/api.page.yaml'' \<mapsto> ''versions:\<newline>  - id: v1\<newline>    definitionId: pets-v1\<newline>  - id: v2\<newline>    definitionId: pets-v2'']))
   = Inr [(''api.page.yaml'', ''api/@v2/v2.yaml'')]"
  by (simp add: relocate_eval_defs)

text \<open>
  C2, amended: a relocation that records a mapping for an original path already in the
  Rename Registry raises no error and replaces the target: recording a second target
  for a path leaves the registry as if only the second had been recorded. The versions of
  one structured-page file all record under the path of that file: when the loop over
  them ends without error, the registry is as it was before the loop, or as it was with one
  target recorded for the file.
\<close>

theorem rename_record_overwrites:
  "recordRename filePath t2 (recordRename filePath t1 st) = recordRename filePath t2 st
   \<and> (migrateVersions ext cwd oas filePath xs (st, files, added) = Inr (st', files', added') \<longrightarrow>
        renamedFiles st' = renamedFiles st
        \<or> (\<exists>r. renamedFiles st' = renamedFiles (recordRename filePath r st)))"
  using recordRename_twice migrateVersions_registry
  by (fastforce simp: recordRename_def)

theorem rename_record_overwrites_witness:
  "map_sum id (renamedFiles \<circ> fst)
     (migrateVersions sample_extern [''site'']
        [(''pets-v1'', Str ''https://example.com/v1.yaml''),
         (''pets-v2'', Str ''https://example.com/v2.yaml'')]
        ''./api.page.yaml''
        [Obj (Addr 3) [(''id'', Str ''v1''), (''definitionId'', Str ''pets-v1'')],
         Obj (Addr 4) [(''id'', Str ''v2''), (''definitionId'', Str ''pets-v2'')]]
        (initial_state, Map.empty, False))
   = Inr [(''api.page.yaml'', ''api/@v2/v2.yaml'')]
   \<and> [(''api.page.yaml'', ''api/@v2/v2.yaml'')]
       = renamedFiles (recordRename ''./api.page.yaml'' ''api/@v2/v2.yaml'' initial_state)"
proof -
  let ?run = "migrateVersions sample_extern [''site'']
        [(''pets-v1'', Str ''https://example.com/v1.yaml''),
         (''pets-v2'', Str ''https://example.com/v2.yaml'')]
        ''./api.page.yaml''
        [Obj (Addr 3) [(''id'', Str ''v1''), (''definitionId'', Str ''pets-v1'')],
         Obj (Addr 4) [(''id'', Str ''v2''), (''definitionId'', Str ''pets-v2'')]]
        (initial_state, Map.empty, False)"
  have ev: "map_sum id (renamedFiles \<circ> fst) ?run = Inr [(''api.page.yaml'', ''api/@v2/v2.yaml'')]"
    by (simp add: relocate_eval_defs)
  then obtain w where w: "?run = Inr w"
    and r: "renamedFiles (fst w) = [(''api.page.yaml'', ''api/@v2/v2.yaml'')]"
    by (cases ?run) auto
  obtain st' files' added' where w': "w = (st', files', added')" by (cases w) auto
  have "renamedFiles st' = renamedFiles initial_state
        \<or> (\<exists>r. renamedFiles st' = renamedFiles (recordRename ''./api.page.yaml'' r initial_state))"
    using rename_record_overwrites[THEN conjunct2, rule_format, of sample_extern] w w' by blast
  moreover have "renamedFiles initial_state = []" by (simp add: initial_state_def)
  moreover have "\<And>t. renamedFiles (recordRename ''./api.page.yaml'' t initial_state)
        = [(''api.page.yaml'', t)]"
    by (simp add: relocate_eval_defs)
  ultimately show ?thesis using ev r w' by auto
qed

end
